theory Spec2Isabelle
  imports Complex_Main "HOL-Library.Sublist"
begin

section \<open>Coursera course scraper: the extraction core of \<open>main.py\<close>\<close>

text \<open>
  A shallow embedding of the pure decision logic of the scraper: the text helpers, the
  de-duplication of discovered links, the idle-round scroll loop, the retry loop around one
  detail page, the final id resequencing, and the duration / level / concepts extraction
  over a parsed document tree.

  A Python string is a sequence of Unicode code points and is modelled as the list of
  their numbers, so that \<^const>\<open>length\<close> is \<open>len\<close>. A string literal of the program is written
  \<open>ascii ''...''\<close>.
\<close>

type_synonym str = "int list"

definition ascii :: "string \<Rightarrow> str" where
  "ascii s = map of_char s"

subsection \<open>Character tables\<close>

text \<open>
  The tables of the Unicode character database that the string methods and the regular
  expression classes of the program consult, as CPython 3.11 has them (Unicode 14.0.0). A
  table of ranges lists the code points of a class as the maximal intervals \<open>(first, last)\<close>,
  in ascending order.
\<close>

text \<open>The code points for which \<open>str.isspace\<close> holds. The class \<open>\s\<close>, \<open>str.strip()\<close> and
  \<open>str.split()\<close> use the same set: the ASCII white space (tab to carriage return, the four
  separators \<open>0x1C\<close> to \<open>0x1F\<close>, the space), the next-line control \<open>0x85\<close>, the no-break space
  \<open>0xA0\<close> and the other spaces and separators of Unicode.\<close>

definition whitespace_ranges :: "(int \<times> int) list" where
  "whitespace_ranges =
     [(9, 13), (28, 32), (133, 133), (160, 160), (5760, 5760), (8192, 8202), (8232, 8233),
      (8239, 8239), (8287, 8287), (12288, 12288)]"

text \<open>The decimal digits (general category \<open>Nd\<close>), which the class \<open>\d\<close> matches.\<close>

definition decimal_ranges :: "(int \<times> int) list" where
  "decimal_ranges =
     [(48, 57), (1632, 1641), (1776, 1785), (1984, 1993), (2406, 2415), (2534, 2543),
      (2662, 2671), (2790, 2799), (2918, 2927), (3046, 3055), (3174, 3183), (3302, 3311),
      (3430, 3439), (3558, 3567), (3664, 3673), (3792, 3801), (3872, 3881), (4160, 4169),
      (4240, 4249), (6112, 6121), (6160, 6169), (6470, 6479), (6608, 6617), (6784, 6793),
      (6800, 6809), (6992, 7001), (7088, 7097), (7232, 7241), (7248, 7257), (42528, 42537),
      (43216, 43225), (43264, 43273), (43472, 43481), (43504, 43513), (43600, 43609),
      (44016, 44025), (65296, 65305), (66720, 66729), (68912, 68921), (69734, 69743),
      (69872, 69881), (69942, 69951), (70096, 70105), (70384, 70393), (70736, 70745),
      (70864, 70873), (71248, 71257), (71360, 71369), (71472, 71481), (71904, 71913),
      (72016, 72025), (72784, 72793), (73040, 73049), (73120, 73129), (92768, 92777),
      (92864, 92873), (93008, 93017), (120782, 120831), (123200, 123209), (123632, 123641),
      (125264, 125273), (130032, 130041)]"

text \<open>The word characters, which the class \<open>\w\<close> matches and \<open>\b\<close> consults: the alphanumeric
  code points and the underscore.\<close>

definition word_ranges :: "(int \<times> int) list" where
  "word_ranges =
     [(48, 57), (65, 90), (95, 95), (97, 122), (170, 170), (178, 179), (181, 181), (185, 186),
      (188, 190), (192, 214), (216, 246), (248, 705), (710, 721), (736, 740), (748, 748),
      (750, 750), (880, 884), (886, 887), (890, 893), (895, 895), (902, 902), (904, 906),
      (908, 908), (910, 929), (931, 1013), (1015, 1153), (1162, 1327), (1329, 1366),
      (1369, 1369), (1376, 1416), (1488, 1514), (1519, 1522), (1568, 1610), (1632, 1641),
      (1646, 1647), (1649, 1747), (1749, 1749), (1765, 1766), (1774, 1788), (1791, 1791),
      (1808, 1808), (1810, 1839), (1869, 1957), (1969, 1969), (1984, 2026), (2036, 2037),
      (2042, 2042), (2048, 2069), (2074, 2074), (2084, 2084), (2088, 2088), (2112, 2136),
      (2144, 2154), (2160, 2183), (2185, 2190), (2208, 2249), (2308, 2361), (2365, 2365),
      (2384, 2384), (2392, 2401), (2406, 2415), (2417, 2432), (2437, 2444), (2447, 2448),
      (2451, 2472), (2474, 2480), (2482, 2482), (2486, 2489), (2493, 2493), (2510, 2510),
      (2524, 2525), (2527, 2529), (2534, 2545), (2548, 2553), (2556, 2556), (2565, 2570),
      (2575, 2576), (2579, 2600), (2602, 2608), (2610, 2611), (2613, 2614), (2616, 2617),
      (2649, 2652), (2654, 2654), (2662, 2671), (2674, 2676), (2693, 2701), (2703, 2705),
      (2707, 2728), (2730, 2736), (2738, 2739), (2741, 2745), (2749, 2749), (2768, 2768),
      (2784, 2785), (2790, 2799), (2809, 2809), (2821, 2828), (2831, 2832), (2835, 2856),
      (2858, 2864), (2866, 2867), (2869, 2873), (2877, 2877), (2908, 2909), (2911, 2913),
      (2918, 2927), (2929, 2935), (2947, 2947), (2949, 2954), (2958, 2960), (2962, 2965),
      (2969, 2970), (2972, 2972), (2974, 2975), (2979, 2980), (2984, 2986), (2990, 3001),
      (3024, 3024), (3046, 3058), (3077, 3084), (3086, 3088), (3090, 3112), (3114, 3129),
      (3133, 3133), (3160, 3162), (3165, 3165), (3168, 3169), (3174, 3183), (3192, 3198),
      (3200, 3200), (3205, 3212), (3214, 3216), (3218, 3240), (3242, 3251), (3253, 3257),
      (3261, 3261), (3293, 3294), (3296, 3297), (3302, 3311), (3313, 3314), (3332, 3340),
      (3342, 3344), (3346, 3386), (3389, 3389), (3406, 3406), (3412, 3414), (3416, 3425),
      (3430, 3448), (3450, 3455), (3461, 3478), (3482, 3505), (3507, 3515), (3517, 3517),
      (3520, 3526), (3558, 3567), (3585, 3632), (3634, 3635), (3648, 3654), (3664, 3673),
      (3713, 3714), (3716, 3716), (3718, 3722), (3724, 3747), (3749, 3749), (3751, 3760),
      (3762, 3763), (3773, 3773), (3776, 3780), (3782, 3782), (3792, 3801), (3804, 3807),
      (3840, 3840), (3872, 3891), (3904, 3911), (3913, 3948), (3976, 3980), (4096, 4138),
      (4159, 4169), (4176, 4181), (4186, 4189), (4193, 4193), (4197, 4198), (4206, 4208),
      (4213, 4225), (4238, 4238), (4240, 4249), (4256, 4293), (4295, 4295), (4301, 4301),
      (4304, 4346), (4348, 4680), (4682, 4685), (4688, 4694), (4696, 4696), (4698, 4701),
      (4704, 4744), (4746, 4749), (4752, 4784), (4786, 4789), (4792, 4798), (4800, 4800),
      (4802, 4805), (4808, 4822), (4824, 4880), (4882, 4885), (4888, 4954), (4969, 4988),
      (4992, 5007), (5024, 5109), (5112, 5117), (5121, 5740), (5743, 5759), (5761, 5786),
      (5792, 5866), (5870, 5880), (5888, 5905), (5919, 5937), (5952, 5969), (5984, 5996),
      (5998, 6000), (6016, 6067), (6103, 6103), (6108, 6108), (6112, 6121), (6128, 6137),
      (6160, 6169), (6176, 6264), (6272, 6276), (6279, 6312), (6314, 6314), (6320, 6389),
      (6400, 6430), (6470, 6509), (6512, 6516), (6528, 6571), (6576, 6601), (6608, 6618),
      (6656, 6678), (6688, 6740), (6784, 6793), (6800, 6809), (6823, 6823), (6917, 6963),
      (6981, 6988), (6992, 7001), (7043, 7072), (7086, 7141), (7168, 7203), (7232, 7241),
      (7245, 7293), (7296, 7304), (7312, 7354), (7357, 7359), (7401, 7404), (7406, 7411),
      (7413, 7414), (7418, 7418), (7424, 7615), (7680, 7957), (7960, 7965), (7968, 8005),
      (8008, 8013), (8016, 8023), (8025, 8025), (8027, 8027), (8029, 8029), (8031, 8061),
      (8064, 8116), (8118, 8124), (8126, 8126), (8130, 8132), (8134, 8140), (8144, 8147),
      (8150, 8155), (8160, 8172), (8178, 8180), (8182, 8188), (8304, 8305), (8308, 8313),
      (8319, 8329), (8336, 8348), (8450, 8450), (8455, 8455), (8458, 8467), (8469, 8469),
      (8473, 8477), (8484, 8484), (8486, 8486), (8488, 8488), (8490, 8493), (8495, 8505),
      (8508, 8511), (8517, 8521), (8526, 8526), (8528, 8585), (9312, 9371), (9450, 9471),
      (10102, 10131), (11264, 11492), (11499, 11502), (11506, 11507), (11517, 11517),
      (11520, 11557), (11559, 11559), (11565, 11565), (11568, 11623), (11631, 11631),
      (11648, 11670), (11680, 11686), (11688, 11694), (11696, 11702), (11704, 11710),
      (11712, 11718), (11720, 11726), (11728, 11734), (11736, 11742), (11823, 11823),
      (12293, 12295), (12321, 12329), (12337, 12341), (12344, 12348), (12353, 12438),
      (12445, 12447), (12449, 12538), (12540, 12543), (12549, 12591), (12593, 12686),
      (12690, 12693), (12704, 12735), (12784, 12799), (12832, 12841), (12872, 12879),
      (12881, 12895), (12928, 12937), (12977, 12991), (13312, 19903), (19968, 42124),
      (42192, 42237), (42240, 42508), (42512, 42539), (42560, 42606), (42623, 42653),
      (42656, 42735), (42775, 42783), (42786, 42888), (42891, 42954), (42960, 42961),
      (42963, 42963), (42965, 42969), (42994, 43009), (43011, 43013), (43015, 43018),
      (43020, 43042), (43056, 43061), (43072, 43123), (43138, 43187), (43216, 43225),
      (43250, 43255), (43259, 43259), (43261, 43262), (43264, 43301), (43312, 43334),
      (43360, 43388), (43396, 43442), (43471, 43481), (43488, 43492), (43494, 43518),
      (43520, 43560), (43584, 43586), (43588, 43595), (43600, 43609), (43616, 43638),
      (43642, 43642), (43646, 43695), (43697, 43697), (43701, 43702), (43705, 43709),
      (43712, 43712), (43714, 43714), (43739, 43741), (43744, 43754), (43762, 43764),
      (43777, 43782), (43785, 43790), (43793, 43798), (43808, 43814), (43816, 43822),
      (43824, 43866), (43868, 43881), (43888, 44002), (44016, 44025), (44032, 55203),
      (55216, 55238), (55243, 55291), (63744, 64109), (64112, 64217), (64256, 64262),
      (64275, 64279), (64285, 64285), (64287, 64296), (64298, 64310), (64312, 64316),
      (64318, 64318), (64320, 64321), (64323, 64324), (64326, 64433), (64467, 64829),
      (64848, 64911), (64914, 64967), (65008, 65019), (65136, 65140), (65142, 65276),
      (65296, 65305), (65313, 65338), (65345, 65370), (65382, 65470), (65474, 65479),
      (65482, 65487), (65490, 65495), (65498, 65500), (65536, 65547), (65549, 65574),
      (65576, 65594), (65596, 65597), (65599, 65613), (65616, 65629), (65664, 65786),
      (65799, 65843), (65856, 65912), (65930, 65931), (66176, 66204), (66208, 66256),
      (66273, 66299), (66304, 66339), (66349, 66378), (66384, 66421), (66432, 66461),
      (66464, 66499), (66504, 66511), (66513, 66517), (66560, 66717), (66720, 66729),
      (66736, 66771), (66776, 66811), (66816, 66855), (66864, 66915), (66928, 66938),
      (66940, 66954), (66956, 66962), (66964, 66965), (66967, 66977), (66979, 66993),
      (66995, 67001), (67003, 67004), (67072, 67382), (67392, 67413), (67424, 67431),
      (67456, 67461), (67463, 67504), (67506, 67514), (67584, 67589), (67592, 67592),
      (67594, 67637), (67639, 67640), (67644, 67644), (67647, 67669), (67672, 67702),
      (67705, 67742), (67751, 67759), (67808, 67826), (67828, 67829), (67835, 67867),
      (67872, 67897), (67968, 68023), (68028, 68047), (68050, 68096), (68112, 68115),
      (68117, 68119), (68121, 68149), (68160, 68168), (68192, 68222), (68224, 68255),
      (68288, 68295), (68297, 68324), (68331, 68335), (68352, 68405), (68416, 68437),
      (68440, 68466), (68472, 68497), (68521, 68527), (68608, 68680), (68736, 68786),
      (68800, 68850), (68858, 68899), (68912, 68921), (69216, 69246), (69248, 69289),
      (69296, 69297), (69376, 69415), (69424, 69445), (69457, 69460), (69488, 69505),
      (69552, 69579), (69600, 69622), (69635, 69687), (69714, 69743), (69745, 69746),
      (69749, 69749), (69763, 69807), (69840, 69864), (69872, 69881), (69891, 69926),
      (69942, 69951), (69956, 69956), (69959, 69959), (69968, 70002), (70006, 70006),
      (70019, 70066), (70081, 70084), (70096, 70106), (70108, 70108), (70113, 70132),
      (70144, 70161), (70163, 70187), (70272, 70278), (70280, 70280), (70282, 70285),
      (70287, 70301), (70303, 70312), (70320, 70366), (70384, 70393), (70405, 70412),
      (70415, 70416), (70419, 70440), (70442, 70448), (70450, 70451), (70453, 70457),
      (70461, 70461), (70480, 70480), (70493, 70497), (70656, 70708), (70727, 70730),
      (70736, 70745), (70751, 70753), (70784, 70831), (70852, 70853), (70855, 70855),
      (70864, 70873), (71040, 71086), (71128, 71131), (71168, 71215), (71236, 71236),
      (71248, 71257), (71296, 71338), (71352, 71352), (71360, 71369), (71424, 71450),
      (71472, 71483), (71488, 71494), (71680, 71723), (71840, 71922), (71935, 71942),
      (71945, 71945), (71948, 71955), (71957, 71958), (71960, 71983), (71999, 71999),
      (72001, 72001), (72016, 72025), (72096, 72103), (72106, 72144), (72161, 72161),
      (72163, 72163), (72192, 72192), (72203, 72242), (72250, 72250), (72272, 72272),
      (72284, 72329), (72349, 72349), (72368, 72440), (72704, 72712), (72714, 72750),
      (72768, 72768), (72784, 72812), (72818, 72847), (72960, 72966), (72968, 72969),
      (72971, 73008), (73030, 73030), (73040, 73049), (73056, 73061), (73063, 73064),
      (73066, 73097), (73112, 73112), (73120, 73129), (73440, 73458), (73648, 73648),
      (73664, 73684), (73728, 74649), (74752, 74862), (74880, 75075), (77712, 77808),
      (77824, 78894), (82944, 83526), (92160, 92728), (92736, 92766), (92768, 92777),
      (92784, 92862), (92864, 92873), (92880, 92909), (92928, 92975), (92992, 92995),
      (93008, 93017), (93019, 93025), (93027, 93047), (93053, 93071), (93760, 93846),
      (93952, 94026), (94032, 94032), (94099, 94111), (94176, 94177), (94179, 94179),
      (94208, 100343), (100352, 101589), (101632, 101640), (110576, 110579), (110581, 110587),
      (110589, 110590), (110592, 110882), (110928, 110930), (110948, 110951), (110960, 111355),
      (113664, 113770), (113776, 113788), (113792, 113800), (113808, 113817), (119520, 119539),
      (119648, 119672), (119808, 119892), (119894, 119964), (119966, 119967), (119970, 119970),
      (119973, 119974), (119977, 119980), (119982, 119993), (119995, 119995), (119997, 120003),
      (120005, 120069), (120071, 120074), (120077, 120084), (120086, 120092), (120094, 120121),
      (120123, 120126), (120128, 120132), (120134, 120134), (120138, 120144), (120146, 120485),
      (120488, 120512), (120514, 120538), (120540, 120570), (120572, 120596), (120598, 120628),
      (120630, 120654), (120656, 120686), (120688, 120712), (120714, 120744), (120746, 120770),
      (120772, 120779), (120782, 120831), (122624, 122654), (123136, 123180), (123191, 123197),
      (123200, 123209), (123214, 123214), (123536, 123565), (123584, 123627), (123632, 123641),
      (124896, 124902), (124904, 124907), (124909, 124910), (124912, 124926), (124928, 125124),
      (125127, 125135), (125184, 125251), (125259, 125259), (125264, 125273), (126065, 126123),
      (126125, 126127), (126129, 126132), (126209, 126253), (126255, 126269), (126464, 126467),
      (126469, 126495), (126497, 126498), (126500, 126500), (126503, 126503), (126505, 126514),
      (126516, 126519), (126521, 126521), (126523, 126523), (126530, 126530), (126535, 126535),
      (126537, 126537), (126539, 126539), (126541, 126543), (126545, 126546), (126548, 126548),
      (126551, 126551), (126553, 126553), (126555, 126555), (126557, 126557), (126559, 126559),
      (126561, 126562), (126564, 126564), (126567, 126570), (126572, 126578), (126580, 126583),
      (126585, 126588), (126590, 126590), (126592, 126601), (126603, 126619), (126625, 126627),
      (126629, 126633), (126635, 126651), (127232, 127244), (130032, 130041), (131072, 173791),
      (173824, 177976), (177984, 178205), (178208, 183969), (183984, 191456), (194560, 195101),
      (196608, 201546)]"

text \<open>The cased code points that are not case-ignorable, and then the case-ignorable code
  points: the two properties that decide how a capital sigma is lower-cased.\<close>

definition cased_ranges :: "(int \<times> int) list" where
  "cased_ranges =
     [(65, 90), (97, 122), (170, 170), (181, 181), (186, 186), (192, 214), (216, 246),
      (248, 442), (444, 447), (452, 659), (661, 687), (880, 883), (886, 887), (891, 893),
      (895, 895), (902, 902), (904, 906), (908, 908), (910, 929), (931, 1013), (1015, 1153),
      (1162, 1327), (1329, 1366), (1376, 1416), (4256, 4293), (4295, 4295), (4301, 4301),
      (4304, 4346), (4349, 4351), (5024, 5109), (5112, 5117), (7296, 7304), (7312, 7354),
      (7357, 7359), (7424, 7467), (7531, 7543), (7545, 7578), (7680, 7957), (7960, 7965),
      (7968, 8005), (8008, 8013), (8016, 8023), (8025, 8025), (8027, 8027), (8029, 8029),
      (8031, 8061), (8064, 8116), (8118, 8124), (8126, 8126), (8130, 8132), (8134, 8140),
      (8144, 8147), (8150, 8155), (8160, 8172), (8178, 8180), (8182, 8188), (8450, 8450),
      (8455, 8455), (8458, 8467), (8469, 8469), (8473, 8477), (8484, 8484), (8486, 8486),
      (8488, 8488), (8490, 8493), (8495, 8500), (8505, 8505), (8508, 8511), (8517, 8521),
      (8526, 8526), (8544, 8575), (8579, 8580), (9398, 9449), (11264, 11387), (11390, 11492),
      (11499, 11502), (11506, 11507), (11520, 11557), (11559, 11559), (11565, 11565),
      (42560, 42605), (42624, 42651), (42786, 42863), (42865, 42887), (42891, 42894),
      (42896, 42954), (42960, 42961), (42963, 42963), (42965, 42969), (42997, 42998),
      (43002, 43002), (43824, 43866), (43872, 43880), (43888, 43967), (64256, 64262),
      (64275, 64279), (65313, 65338), (65345, 65370), (66560, 66639), (66736, 66771),
      (66776, 66811), (66928, 66938), (66940, 66954), (66956, 66962), (66964, 66965),
      (66967, 66977), (66979, 66993), (66995, 67001), (67003, 67004), (68736, 68786),
      (68800, 68850), (71840, 71903), (93760, 93823), (119808, 119892), (119894, 119964),
      (119966, 119967), (119970, 119970), (119973, 119974), (119977, 119980), (119982, 119993),
      (119995, 119995), (119997, 120003), (120005, 120069), (120071, 120074), (120077, 120084),
      (120086, 120092), (120094, 120121), (120123, 120126), (120128, 120132), (120134, 120134),
      (120138, 120144), (120146, 120485), (120488, 120512), (120514, 120538), (120540, 120570),
      (120572, 120596), (120598, 120628), (120630, 120654), (120656, 120686), (120688, 120712),
      (120714, 120744), (120746, 120770), (120772, 120779), (122624, 122633), (122635, 122654),
      (125184, 125251), (127280, 127305), (127312, 127337), (127344, 127369)]"

text \<open>The case-ignorable code points.\<close>

definition case_ignorable_ranges :: "(int \<times> int) list" where
  "case_ignorable_ranges =
     [(39, 39), (46, 46), (58, 58), (94, 94), (96, 96), (168, 168), (173, 173), (175, 175),
      (180, 180), (183, 184), (688, 879), (884, 885), (890, 890), (900, 901), (903, 903),
      (1155, 1161), (1369, 1369), (1375, 1375), (1425, 1469), (1471, 1471), (1473, 1474),
      (1476, 1477), (1479, 1479), (1524, 1524), (1536, 1541), (1552, 1562), (1564, 1564),
      (1600, 1600), (1611, 1631), (1648, 1648), (1750, 1757), (1759, 1768), (1770, 1773),
      (1807, 1807), (1809, 1809), (1840, 1866), (1958, 1968), (2027, 2037), (2042, 2042),
      (2045, 2045), (2070, 2093), (2137, 2139), (2184, 2184), (2192, 2193), (2200, 2207),
      (2249, 2306), (2362, 2362), (2364, 2364), (2369, 2376), (2381, 2381), (2385, 2391),
      (2402, 2403), (2417, 2417), (2433, 2433), (2492, 2492), (2497, 2500), (2509, 2509),
      (2530, 2531), (2558, 2558), (2561, 2562), (2620, 2620), (2625, 2626), (2631, 2632),
      (2635, 2637), (2641, 2641), (2672, 2673), (2677, 2677), (2689, 2690), (2748, 2748),
      (2753, 2757), (2759, 2760), (2765, 2765), (2786, 2787), (2810, 2815), (2817, 2817),
      (2876, 2876), (2879, 2879), (2881, 2884), (2893, 2893), (2901, 2902), (2914, 2915),
      (2946, 2946), (3008, 3008), (3021, 3021), (3072, 3072), (3076, 3076), (3132, 3132),
      (3134, 3136), (3142, 3144), (3146, 3149), (3157, 3158), (3170, 3171), (3201, 3201),
      (3260, 3260), (3263, 3263), (3270, 3270), (3276, 3277), (3298, 3299), (3328, 3329),
      (3387, 3388), (3393, 3396), (3405, 3405), (3426, 3427), (3457, 3457), (3530, 3530),
      (3538, 3540), (3542, 3542), (3633, 3633), (3636, 3642), (3654, 3662), (3761, 3761),
      (3764, 3772), (3782, 3782), (3784, 3789), (3864, 3865), (3893, 3893), (3895, 3895),
      (3897, 3897), (3953, 3966), (3968, 3972), (3974, 3975), (3981, 3991), (3993, 4028),
      (4038, 4038), (4141, 4144), (4146, 4151), (4153, 4154), (4157, 4158), (4184, 4185),
      (4190, 4192), (4209, 4212), (4226, 4226), (4229, 4230), (4237, 4237), (4253, 4253),
      (4348, 4348), (4957, 4959), (5906, 5908), (5938, 5939), (5970, 5971), (6002, 6003),
      (6068, 6069), (6071, 6077), (6086, 6086), (6089, 6099), (6103, 6103), (6109, 6109),
      (6155, 6159), (6211, 6211), (6277, 6278), (6313, 6313), (6432, 6434), (6439, 6440),
      (6450, 6450), (6457, 6459), (6679, 6680), (6683, 6683), (6742, 6742), (6744, 6750),
      (6752, 6752), (6754, 6754), (6757, 6764), (6771, 6780), (6783, 6783), (6823, 6823),
      (6832, 6862), (6912, 6915), (6964, 6964), (6966, 6970), (6972, 6972), (6978, 6978),
      (7019, 7027), (7040, 7041), (7074, 7077), (7080, 7081), (7083, 7085), (7142, 7142),
      (7144, 7145), (7149, 7149), (7151, 7153), (7212, 7219), (7222, 7223), (7288, 7293),
      (7376, 7378), (7380, 7392), (7394, 7400), (7405, 7405), (7412, 7412), (7416, 7417),
      (7468, 7530), (7544, 7544), (7579, 7679), (8125, 8125), (8127, 8129), (8141, 8143),
      (8157, 8159), (8173, 8175), (8189, 8190), (8203, 8207), (8216, 8217), (8228, 8228),
      (8231, 8231), (8234, 8238), (8288, 8292), (8294, 8303), (8305, 8305), (8319, 8319),
      (8336, 8348), (8400, 8432), (11388, 11389), (11503, 11505), (11631, 11631),
      (11647, 11647), (11744, 11775), (11823, 11823), (12293, 12293), (12330, 12333),
      (12337, 12341), (12347, 12347), (12441, 12446), (12540, 12542), (40981, 40981),
      (42232, 42237), (42508, 42508), (42607, 42610), (42612, 42621), (42623, 42623),
      (42652, 42655), (42736, 42737), (42752, 42785), (42864, 42864), (42888, 42890),
      (42994, 42996), (43000, 43001), (43010, 43010), (43014, 43014), (43019, 43019),
      (43045, 43046), (43052, 43052), (43204, 43205), (43232, 43249), (43263, 43263),
      (43302, 43309), (43335, 43345), (43392, 43394), (43443, 43443), (43446, 43449),
      (43452, 43453), (43471, 43471), (43493, 43494), (43561, 43566), (43569, 43570),
      (43573, 43574), (43587, 43587), (43596, 43596), (43632, 43632), (43644, 43644),
      (43696, 43696), (43698, 43700), (43703, 43704), (43710, 43711), (43713, 43713),
      (43741, 43741), (43756, 43757), (43763, 43764), (43766, 43766), (43867, 43871),
      (43881, 43883), (44005, 44005), (44008, 44008), (44013, 44013), (64286, 64286),
      (64434, 64450), (65024, 65039), (65043, 65043), (65056, 65071), (65106, 65106),
      (65109, 65109), (65279, 65279), (65287, 65287), (65294, 65294), (65306, 65306),
      (65342, 65342), (65344, 65344), (65392, 65392), (65438, 65439), (65507, 65507),
      (65529, 65531), (66045, 66045), (66272, 66272), (66422, 66426), (67456, 67461),
      (67463, 67504), (67506, 67514), (68097, 68099), (68101, 68102), (68108, 68111),
      (68152, 68154), (68159, 68159), (68325, 68326), (68900, 68903), (69291, 69292),
      (69446, 69456), (69506, 69509), (69633, 69633), (69688, 69702), (69744, 69744),
      (69747, 69748), (69759, 69761), (69811, 69814), (69817, 69818), (69821, 69821),
      (69826, 69826), (69837, 69837), (69888, 69890), (69927, 69931), (69933, 69940),
      (70003, 70003), (70016, 70017), (70070, 70078), (70089, 70092), (70095, 70095),
      (70191, 70193), (70196, 70196), (70198, 70199), (70206, 70206), (70367, 70367),
      (70371, 70378), (70400, 70401), (70459, 70460), (70464, 70464), (70502, 70508),
      (70512, 70516), (70712, 70719), (70722, 70724), (70726, 70726), (70750, 70750),
      (70835, 70840), (70842, 70842), (70847, 70848), (70850, 70851), (71090, 71093),
      (71100, 71101), (71103, 71104), (71132, 71133), (71219, 71226), (71229, 71229),
      (71231, 71232), (71339, 71339), (71341, 71341), (71344, 71349), (71351, 71351),
      (71453, 71455), (71458, 71461), (71463, 71467), (71727, 71735), (71737, 71738),
      (71995, 71996), (71998, 71998), (72003, 72003), (72148, 72151), (72154, 72155),
      (72160, 72160), (72193, 72202), (72243, 72248), (72251, 72254), (72263, 72263),
      (72273, 72278), (72281, 72283), (72330, 72342), (72344, 72345), (72752, 72758),
      (72760, 72765), (72767, 72767), (72850, 72871), (72874, 72880), (72882, 72883),
      (72885, 72886), (73009, 73014), (73018, 73018), (73020, 73021), (73023, 73029),
      (73031, 73031), (73104, 73105), (73109, 73109), (73111, 73111), (73459, 73460),
      (78896, 78904), (92912, 92916), (92976, 92982), (92992, 92995), (94031, 94031),
      (94095, 94111), (94176, 94177), (94179, 94180), (110576, 110579), (110581, 110587),
      (110589, 110590), (113821, 113822), (113824, 113827), (118528, 118573), (118576, 118598),
      (119143, 119145), (119155, 119170), (119173, 119179), (119210, 119213), (119362, 119364),
      (121344, 121398), (121403, 121452), (121461, 121461), (121476, 121476), (121499, 121503),
      (121505, 121519), (122880, 122886), (122888, 122904), (122907, 122913), (122915, 122916),
      (122918, 122922), (123184, 123197), (123566, 123566), (123628, 123631), (125136, 125142),
      (125252, 125259), (127995, 127999), (917505, 917505), (917536, 917631), (917760, 917999)]"

text \<open>The code points from 128 upwards that \<open>str.lower()\<close> replaces by one other code point.
  A row \<open>(first, last, step, d)\<close> stands for the code points \<open>first\<close>, \<open>first + step\<close>, and so
  on up to \<open>last\<close>, each of which is replaced by the code point \<open>d\<close> places further on; the
  rows are in ascending order and do not overlap. Two more code points are changed and are
  not in the table: \<open>U+0130\<close>, which becomes \<open>i\<close> followed by \<open>U+0307\<close>, and the Kelvin sign
  \<open>U+212A\<close>, which becomes \<open>k\<close>. The capital sigma \<open>U+03A3\<close> stands here with the small sigma
  \<open>U+03C3\<close>; at the end of a word it becomes the final sigma \<open>U+03C2\<close>.\<close>

definition lower_table :: "(int \<times> int \<times> int \<times> int) list" where
  "lower_table =
     [(192, 214, 1, 32), (216, 222, 1, 32), (256, 302, 2, 1), (306, 310, 2, 1),
      (313, 327, 2, 1), (330, 374, 2, 1), (376, 376, 1, -121), (377, 381, 2, 1),
      (385, 385, 1, 210), (386, 388, 2, 1), (390, 390, 1, 206), (391, 391, 1, 1),
      (393, 394, 1, 205), (395, 395, 1, 1), (398, 398, 1, 79), (399, 399, 1, 202),
      (400, 400, 1, 203), (401, 401, 1, 1), (403, 403, 1, 205), (404, 404, 1, 207),
      (406, 406, 1, 211), (407, 407, 1, 209), (408, 408, 1, 1), (412, 412, 1, 211),
      (413, 413, 1, 213), (415, 415, 1, 214), (416, 420, 2, 1), (422, 422, 1, 218),
      (423, 423, 1, 1), (425, 425, 1, 218), (428, 428, 1, 1), (430, 430, 1, 218),
      (431, 431, 1, 1), (433, 434, 1, 217), (435, 437, 2, 1), (439, 439, 1, 219),
      (440, 440, 1, 1), (444, 444, 1, 1), (452, 452, 1, 2), (453, 453, 1, 1), (455, 455, 1, 2),
      (456, 456, 1, 1), (458, 458, 1, 2), (459, 475, 2, 1), (478, 494, 2, 1), (497, 497, 1, 2),
      (498, 500, 2, 1), (502, 502, 1, -97), (503, 503, 1, -56), (504, 542, 2, 1),
      (544, 544, 1, -130), (546, 562, 2, 1), (570, 570, 1, 10795), (571, 571, 1, 1),
      (573, 573, 1, -163), (574, 574, 1, 10792), (577, 577, 1, 1), (579, 579, 1, -195),
      (580, 580, 1, 69), (581, 581, 1, 71), (582, 590, 2, 1), (880, 882, 2, 1),
      (886, 886, 1, 1), (895, 895, 1, 116), (902, 902, 1, 38), (904, 906, 1, 37),
      (908, 908, 1, 64), (910, 911, 1, 63), (913, 929, 1, 32), (931, 939, 1, 32),
      (975, 975, 1, 8), (984, 1006, 2, 1), (1012, 1012, 1, -60), (1015, 1015, 1, 1),
      (1017, 1017, 1, -7), (1018, 1018, 1, 1), (1021, 1023, 1, -130), (1024, 1039, 1, 80),
      (1040, 1071, 1, 32), (1120, 1152, 2, 1), (1162, 1214, 2, 1), (1216, 1216, 1, 15),
      (1217, 1229, 2, 1), (1232, 1326, 2, 1), (1329, 1366, 1, 48), (4256, 4293, 1, 7264),
      (4295, 4295, 1, 7264), (4301, 4301, 1, 7264), (5024, 5103, 1, 38864), (5104, 5109, 1, 8),
      (7312, 7354, 1, -3008), (7357, 7359, 1, -3008), (7680, 7828, 2, 1),
      (7838, 7838, 1, -7615), (7840, 7934, 2, 1), (7944, 7951, 1, -8), (7960, 7965, 1, -8),
      (7976, 7983, 1, -8), (7992, 7999, 1, -8), (8008, 8013, 1, -8), (8025, 8031, 2, -8),
      (8040, 8047, 1, -8), (8072, 8079, 1, -8), (8088, 8095, 1, -8), (8104, 8111, 1, -8),
      (8120, 8121, 1, -8), (8122, 8123, 1, -74), (8124, 8124, 1, -9), (8136, 8139, 1, -86),
      (8140, 8140, 1, -9), (8152, 8153, 1, -8), (8154, 8155, 1, -100), (8168, 8169, 1, -8),
      (8170, 8171, 1, -112), (8172, 8172, 1, -7), (8184, 8185, 1, -128), (8186, 8187, 1, -126),
      (8188, 8188, 1, -9), (8486, 8486, 1, -7517), (8491, 8491, 1, -8262), (8498, 8498, 1, 28),
      (8544, 8559, 1, 16), (8579, 8579, 1, 1), (9398, 9423, 1, 26), (11264, 11311, 1, 48),
      (11360, 11360, 1, 1), (11362, 11362, 1, -10743), (11363, 11363, 1, -3814),
      (11364, 11364, 1, -10727), (11367, 11371, 2, 1), (11373, 11373, 1, -10780),
      (11374, 11374, 1, -10749), (11375, 11375, 1, -10783), (11376, 11376, 1, -10782),
      (11378, 11378, 1, 1), (11381, 11381, 1, 1), (11390, 11391, 1, -10815),
      (11392, 11490, 2, 1), (11499, 11501, 2, 1), (11506, 11506, 1, 1), (42560, 42604, 2, 1),
      (42624, 42650, 2, 1), (42786, 42798, 2, 1), (42802, 42862, 2, 1), (42873, 42875, 2, 1),
      (42877, 42877, 1, -35332), (42878, 42886, 2, 1), (42891, 42891, 1, 1),
      (42893, 42893, 1, -42280), (42896, 42898, 2, 1), (42902, 42920, 2, 1),
      (42922, 42922, 1, -42308), (42923, 42923, 1, -42319), (42924, 42924, 1, -42315),
      (42925, 42925, 1, -42305), (42926, 42926, 1, -42308), (42928, 42928, 1, -42258),
      (42929, 42929, 1, -42282), (42930, 42930, 1, -42261), (42931, 42931, 1, 928),
      (42932, 42946, 2, 1), (42948, 42948, 1, -48), (42949, 42949, 1, -42307),
      (42950, 42950, 1, -35384), (42951, 42953, 2, 1), (42960, 42960, 1, 1),
      (42966, 42968, 2, 1), (42997, 42997, 1, 1), (65313, 65338, 1, 32), (66560, 66599, 1, 40),
      (66736, 66771, 1, 40), (66928, 66938, 1, 39), (66940, 66954, 1, 39),
      (66956, 66962, 1, 39), (66964, 66965, 1, 39), (68736, 68786, 1, 64),
      (71840, 71871, 1, 32), (93760, 93791, 1, 32), (125184, 125217, 1, 34)]"

subsection \<open>Text helpers\<close>

text \<open>Membership in a table of ranges; the ranges are in ascending order, so the search
  ends at the first range that does not lie below the code point.\<close>

fun in_ranges :: "int \<Rightarrow> (int \<times> int) list \<Rightarrow> bool" where
  "in_ranges c [] = False"
| "in_ranges c ((lo, hi) # rs) =
     (if c < lo then False else if c \<le> hi then True else in_ranges c rs)"

text \<open>\<open>str.isspace\<close> of one character, which is also what the class \<open>\s\<close> matches.\<close>

definition isspace :: "int \<Rightarrow> bool" where
  "isspace c = in_ranges c whitespace_ranges"

text \<open>What the class \<open>\d\<close> matches.\<close>

definition isdigit :: "int \<Rightarrow> bool" where
  "isdigit c = in_ranges c decimal_ranges"

text \<open>\<open>str.lower()\<close>. Every character is replaced on its own, by \<open>lower_cp\<close>, except the
  capital sigma \<open>U+03A3\<close>: it becomes the final sigma \<open>U+03C2\<close> when a cased character stands
  before it, with nothing but case-ignorable characters in between, and no cased character
  stands after it in the same way; it becomes the small sigma \<open>U+03C3\<close> otherwise. The flag
  of \<open>lower_from\<close> tells whether a cased character stands before the position in that
  way.\<close>

fun lower_offset :: "int \<Rightarrow> (int \<times> int \<times> int \<times> int) list \<Rightarrow> int" where
  "lower_offset c [] = 0"
| "lower_offset c ((lo, hi, step, d) # rs) =
     (if c < lo then 0
      else if c \<le> hi then (if (c - lo) mod step = 0 then d else 0)
      else lower_offset c rs)"

definition lower_cp :: "int \<Rightarrow> str" where
  "lower_cp c =
     (if c < 128 then (if 65 \<le> c \<and> c \<le> 90 then [c + 32] else [c])
      else if c = 304 then [105, 775]
      else if c = 8490 then [107]
      else [c + lower_offset c lower_table])"

definition case_ignorable :: "int \<Rightarrow> bool" where
  "case_ignorable c = in_ranges c case_ignorable_ranges"

definition cased :: "int \<Rightarrow> bool" where
  "cased c = in_ranges c cased_ranges"

fun cased_follows :: "str \<Rightarrow> bool" where
  "cased_follows [] = False"
| "cased_follows (c # cs) = (if case_ignorable c then cased_follows cs else cased c)"

fun lower_from :: "bool \<Rightarrow> str \<Rightarrow> str" where
  "lower_from b [] = []"
| "lower_from b (c # cs) =
     (if c = 931 then [if b \<and> \<not> cased_follows cs then 962 else 963] else lower_cp c)
       @ lower_from (if case_ignorable c then b else cased c) cs"

definition lower :: "str \<Rightarrow> str" where
  "lower s = lower_from False s"

text \<open>\<open>re.sub(r"\s+", " ", s)\<close>: scanning from the left, every maximal run of whitespace is
  replaced by one space.\<close>

function sub_ws :: "str \<Rightarrow> str" where
  "sub_ws [] = []"
| "sub_ws (c # cs) =
     (if isspace c then 32 # sub_ws (dropWhile isspace cs) else c # sub_ws cs)"
  by pat_completeness auto
termination
  by (relation "measure length") (auto simp: le_imp_less_Suc length_dropWhile_le)

text \<open>\<open>str.strip()\<close>.\<close>

definition strip :: "str \<Rightarrow> str" where
  "strip s = rev (dropWhile isspace (rev (dropWhile isspace s)))"

text \<open>The right half of \<open>strip\<close>, used to reason about it.\<close>

definition rstrip :: "str \<Rightarrow> str" where
  "rstrip s = rev (dropWhile isspace (rev s))"

text \<open>\<open>clean_text(s)\<close> is \<open>re.sub(r"\s+", " ", s or "").strip()\<close>; the argument is
  \<open>Optional[str]\<close>, and \<open>s or ""\<close> turns both \<open>None\<close> and the empty string into the empty
  string.\<close>

definition clean_text :: "str option \<Rightarrow> str" where
  "clean_text s = strip (sub_ws (case s of None \<Rightarrow> [] | Some t \<Rightarrow> t))"

text \<open>The specification's reading of \<open>clean\<close>: the maximal runs of non-whitespace
  characters of the input (its words), joined by single spaces. \<open>split_ws\<close> is also
  \<open>str.split()\<close>.\<close>

function split_ws :: "str \<Rightarrow> str list" where
  "split_ws [] = []"
| "split_ws (c # cs) =
     (if isspace c then split_ws cs
      else (c # takeWhile (\<lambda>x. \<not> isspace x) cs) #
           split_ws (dropWhile (\<lambda>x. \<not> isspace x) cs))"
  by pat_completeness auto
termination
  by (relation "measure length") (auto simp: le_imp_less_Suc length_dropWhile_le)

fun join_sp :: "str list \<Rightarrow> str" where
  "join_sp [] = []"
| "join_sp [w] = w"
| "join_sp (w # ws) = w @ 32 # join_sp ws"

text \<open>Python's \<open>sub in s\<close> on strings: \<open>sub\<close> occurs in \<open>s\<close> as a contiguous block.\<close>

fun contains :: "str \<Rightarrow> str \<Rightarrow> bool" where
  "contains sub [] = (sub = [])"
| "contains sub (c # cs) = (prefix sub (c # cs) \<or> contains sub cs)"

text \<open>\<open>normalize_level\<close>: three substring tests on the lower-cased text, in this order.\<close>

definition normalize_level :: "str \<Rightarrow> str option" where
  "normalize_level text =
     (let t = lower text in
      if contains (ascii ''beginner'') t then Some (ascii ''Beginner'')
      else if contains (ascii ''intermediate'') t then Some (ascii ''Intermediate'')
      else if contains (ascii ''advanced'') t then Some (ascii ''Advanced'')
      else None)"

subsection \<open>Regular expressions\<close>

text \<open>
  The patterns of the program use literals, the classes \<open>\d\<close> and \<open>\s\<close> under \<open>+\<close> and \<open>*\<close>,
  groups, alternation, the optional \<open>?\<close> and the word boundary \<open>\b\<close>. Python's matcher
  backtracks: an alternation tries its branches from left to right, \<open>+\<close>, \<open>*\<close> and \<open>?\<close>
  are greedy and give back one repetition at a time, and the first way to complete the
  whole pattern is the match. \<open>rx_match\<close> lists the ways a pattern can match at the start of
  the remaining text in exactly that order of preference, each as the state after the
  match: the character before the position (for \<open>\b\<close>) and the text that is left.
\<close>

datatype cls = Digit | Space

datatype rx =
    Lit str
  | Many1 cls
  | Many0 cls
  | Seq rx rx
  | Alt rx rx
  | Opt rx
  | WordB

fun in_cls :: "cls \<Rightarrow> int \<Rightarrow> bool" where
  "in_cls Digit c = isdigit c"
| "in_cls Space c = isspace c"

text \<open>What the class \<open>\w\<close> matches.\<close>

definition isword :: "int \<Rightarrow> bool" where
  "isword c = in_ranges c word_ranges"

text \<open>The state after consuming \<open>n\<close> characters.\<close>

definition advance :: "nat \<Rightarrow> int option \<times> str \<Rightarrow> int option \<times> str" where
  "advance n st =
     (if n = 0 then st else (Some (snd st ! (n - 1)), drop n (snd st)))"

text \<open>With \<open>ic\<close> (the flag \<open>re.I\<close>) a letter of the pattern matches the characters with the
  same simple lower-case form and, for \<open>i\<close>, \<open>k\<close> and \<open>s\<close>, the further characters of the
  matcher's table of equivalent cases: for the letters of ASCII, the only ones in the patterns
  of the program, these are the letter in both cases and in addition the dotted capital
  \<open>U+0130\<close> and the dotless \<open>U+0131\<close> for \<open>i\<close>, the Kelvin sign \<open>U+212A\<close> for \<open>k\<close> and the long
  \<open>U+017F\<close> for \<open>s\<close>. \<open>fold_ci\<close> maps each of them to the small ASCII letter and leaves
  every other character alone.\<close>

definition fold_ci :: "int \<Rightarrow> int" where
  "fold_ci c =
     (if 65 \<le> c \<and> c \<le> 90 then c + 32
      else if c = 304 \<or> c = 305 then 105
      else if c = 8490 then 107
      else if c = 383 then 115
      else c)"

definition lit_matches :: "bool \<Rightarrow> str \<Rightarrow> str \<Rightarrow> bool" where
  "lit_matches ic s text =
     (if ic then prefix (map fold_ci s) (map fold_ci text) else prefix s text)"

fun rx_match :: "bool \<Rightarrow> rx \<Rightarrow> int option \<times> str \<Rightarrow> (int option \<times> str) list" where
  "rx_match ic (Lit s) st =
     (if lit_matches ic s (snd st) then [advance (length s) st] else [])"
| "rx_match ic (Many1 c) st =
     map (\<lambda>n. advance n st) (rev [1..<Suc (length (takeWhile (in_cls c) (snd st)))])"
| "rx_match ic (Many0 c) st =
     map (\<lambda>n. advance n st) (rev [0..<Suc (length (takeWhile (in_cls c) (snd st)))])"
| "rx_match ic (Seq a b) st = concat (map (rx_match ic b) (rx_match ic a st))"
| "rx_match ic (Alt a b) st = rx_match ic a st @ rx_match ic b st"
| "rx_match ic (Opt a) st = rx_match ic a st @ [st]"
| "rx_match ic WordB st =
     (if (case fst st of None \<Rightarrow> False | Some p \<Rightarrow> isword p)
         \<noteq> (case snd st of [] \<Rightarrow> False | c # cs \<Rightarrow> isword c)
      then [st] else [])"

text \<open>\<open>re.search(pattern, text)\<close>: the first position, from the left, at which the pattern
  matches, with the preferred match there; the result is \<open>group(0)\<close>, the text matched.
  \<open>search_from\<close> tries the positions of the remaining text in turn.\<close>

fun search_from :: "bool \<Rightarrow> rx \<Rightarrow> int option \<Rightarrow> str \<Rightarrow> str option" where
  "search_from ic r prev [] =
     (case rx_match ic r (prev, []) of [] \<Rightarrow> None | st # sts \<Rightarrow> Some [])"
| "search_from ic r prev (c # cs) =
     (case rx_match ic r (prev, c # cs) of
        [] \<Rightarrow> search_from ic r (Some c) cs
      | st # sts \<Rightarrow> Some (take (length (c # cs) - length (snd st)) (c # cs)))"

definition re_search :: "bool \<Rightarrow> rx \<Rightarrow> str \<Rightarrow> str option" where
  "re_search ic r text = search_from ic r None text"

text \<open>Sequences and alternations of several parts.\<close>

fun seqs :: "rx list \<Rightarrow> rx" where
  "seqs [] = Lit []"
| "seqs [r] = r"
| "seqs (r # rs) = Seq r (seqs rs)"

fun alts :: "str list \<Rightarrow> rx" where
  "alts [] = Lit []"
| "alts [s] = Lit s"
| "alts (s # ss) = Alt (Lit s) (alts ss)"

text \<open>\<open>(\d+(?:\.\d+)?)\<close>.\<close>

definition number :: rx where
  "number = Seq (Many1 Digit) (Opt (Seq (Lit (ascii ''.'')) (Many1 Digit)))"

subsection \<open>The two duration detectors\<close>

text \<open>\<open>extract_duration_like\<close>: the keyword sniff. The substitution removes one label at
  the very start of the cleaned text (\<open>^\<close> matches only there).\<close>

definition time_keywords :: "str list" where
  "time_keywords =
     map ascii
     [''hour'', ''hours'', ''hr'', ''hrs'',
      ''week'', ''weeks'', ''wk'', ''wks'',
      ''month'', ''months'', ''mo'', ''mos'',
      ''day'', ''days'', ''minute'', ''minutes'', ''min'', ''mins'',
      ''approx'', ''approximately'', ''estimated'', ''complete'',
      ''pace'', ''commitment'', ''time'']"

definition label_prefix :: rx where
  "label_prefix =
     seqs [alts (map ascii [''duration'', ''time'', ''estimated'', ''approximately'', ''approx'']),
           Lit (ascii '':''), Many0 Space]"

definition strip_label :: "str \<Rightarrow> str" where
  "strip_label s =
     (case rx_match True label_prefix (None, s) of
        [] \<Rightarrow> s
      | st # sts \<Rightarrow> snd st)"

definition extract_duration_like :: "str \<Rightarrow> str option" where
  "extract_duration_like text =
     (let t = lower text in
      if list_ex (\<lambda>k. contains k t) time_keywords
      then Some (strip_label (clean_text (Some text)))
      else None)"

text \<open>\<open>parse_duration_from_text\<close>: the eight patterns in the order of the list.\<close>

definition duration_patterns :: "rx list" where
  "duration_patterns =
     [seqs [number, Many0 Space, alts (map ascii [''hour'', ''hours'', ''hr'', ''hrs'']), Many0 Space,
            Opt (Alt (seqs [Lit (ascii ''per''), Many0 Space, Lit (ascii ''week'')]) (Lit (ascii ''weekly'')))],
      seqs [number, Many0 Space, alts (map ascii [''week'', ''weeks'', ''wk'', ''wks''])],
      seqs [number, Many0 Space, alts (map ascii [''month'', ''months'', ''mo'', ''mos''])],
      seqs [number, Many0 Space, alts (map ascii [''day'', ''days''])],
      seqs [number, Many0 Space, alts (map ascii [''minute'', ''minutes'', ''min'', ''mins''])],
      seqs [Lit (ascii ''approximately''), Many0 Space, number, Many0 Space,
            alts (map ascii [''hour'', ''hours'', ''week'', ''weeks''])],
      seqs [Lit (ascii ''about''), Many0 Space, number, Many0 Space,
            alts (map ascii [''hour'', ''hours'', ''week'', ''weeks''])],
      seqs [number, Lit (ascii ''-''), number, Many0 Space,
            alts (map ascii [''hour'', ''hours'', ''week'', ''weeks''])]]"

text \<open>The loop over the patterns: the first one that matches anywhere gives the result,
  \<open>match.group(0).strip()\<close>.\<close>

fun first_match :: "rx list \<Rightarrow> str \<Rightarrow> str option" where
  "first_match [] t = None"
| "first_match (p # ps) t =
     (case re_search False p t of
        Some m \<Rightarrow> Some (strip m)
      | None \<Rightarrow> first_match ps t)"

definition parse_duration_from_text :: "str \<Rightarrow> str option" where
  "parse_duration_from_text text =
     (if text = [] then None else first_match duration_patterns (lower text))"

text \<open>Two notions used to compare the patterns: a state further on in the same text, with
  the character before it; and the common end of the last three patterns, a number, spaces
  and one of \<open>hour\<close>, \<open>hours\<close>, \<open>week\<close>, \<open>weeks\<close>.\<close>

definition later_site :: "int option \<times> str \<Rightarrow> int option \<times> str \<Rightarrow> bool" where
  "later_site st m =
     (\<exists>w. snd st = w @ snd m \<and> fst m = (if w = [] then fst st else Some (last w)))"

definition unit_tail :: rx where
  "unit_tail = Seq number (Seq (Many0 Space) (alts (map ascii [''hour'', ''hours'', ''week'', ''weeks''])))"


subsection \<open>The parsed document\<close>

text \<open>
  \<open>BeautifulSoup(driver.page_source, "lxml")\<close> is a tree of tags and strings. A tag has a
  name, a dictionary of attributes (here an association list read with \<^const>\<open>map_of\<close>) and
  children; the \<open>class\<close> attribute is kept as its text, whose whitespace-separated tokens
  are the classes. The soup itself is the root tag; the queries below never return it.

  The parser and the query library are not part of the repository: the model starts at the
  parsed tree and gives the queries the code uses their documented meaning (that of the
  library from version 4.11 on). There a string is either ordinary text, or a string of a
  special class: the content of a \<open>script\<close>, \<open>style\<close> or \<open>template\<close> tag, of the ruby tags
  \<open>rt\<close> and \<open>rp\<close>, or a comment or declaration. \<open>Special k s\<close> is such a string, \<open>k\<close> being
  the name of the tag whose text shows it (any other name for a comment or declaration,
  which no tag shows).
\<close>

datatype node =
    Text str
  | Special str str
  | Element str "(str \<times> str) list" "node list"

fun is_element :: "node \<Rightarrow> bool" where
  "is_element (Element t a cs) = True"
| "is_element n = False"

fun tag_name :: "node \<Rightarrow> str" where
  "tag_name (Element t a cs) = t"
| "tag_name n = []"

fun attrs :: "node \<Rightarrow> (str \<times> str) list" where
  "attrs (Element t a cs) = a"
| "attrs n = []"

fun children :: "node \<Rightarrow> node list" where
  "children (Element t a cs) = cs"
| "children n = []"

text \<open>\<open>tag.get(name)\<close>.\<close>

definition get_attr :: "node \<Rightarrow> str \<Rightarrow> str option" where
  "get_attr n name = map_of (attrs n) name"

text \<open>\<open>tag.descendants\<close>: everything below a tag, in document order.\<close>

fun descendants :: "node \<Rightarrow> node list" where
  "descendants (Element t a cs) = concat (map (\<lambda>c. c # descendants c) cs)"
| "descendants n = []"

text \<open>The strings below a node that the text of a tag named \<open>t\<close> shows, in document order:
  ordinary text for an ordinary tag, and for one of the five special tags the special
  strings of its own kind.\<close>

definition special_tags :: "str list" where
  "special_tags = map ascii [''script'', ''style'', ''template'', ''rt'', ''rp'']"

fun shown :: "str \<Rightarrow> node \<Rightarrow> str list" where
  "shown t (Text s) = (if t \<in> set special_tags then [] else [s])"
| "shown t (Special k s) = (if t \<in> set special_tags \<and> k = t then [s] else [])"
| "shown t (Element t' a cs) = concat (map (shown t) cs)"

definition strings :: "node \<Rightarrow> str list" where
  "strings n = shown (tag_name n) n"

text \<open>\<open>sep.join(parts)\<close>.\<close>

fun join :: "str \<Rightarrow> str list \<Rightarrow> str" where
  "join sep [] = []"
| "join sep [w] = w"
| "join sep (w # ws) = w @ sep @ join sep ws"

text \<open>\<open>tag.get_text(separator, strip)\<close>: with \<open>strip\<close>, every string is stripped and the
  ones left empty are dropped before joining.\<close>

definition get_text :: "str \<Rightarrow> bool \<Rightarrow> node \<Rightarrow> str" where
  "get_text sep strp n =
     (if strp then join sep (filter (\<lambda>s. s \<noteq> []) (map strip (strings n)))
      else join sep (strings n))"

text \<open>\<open>tag.find_all([names])\<close>: the tags below with one of the names, in document order.\<close>

definition find_all :: "str list \<Rightarrow> node \<Rightarrow> node list" where
  "find_all names n = filter (\<lambda>d. is_element d \<and> tag_name d \<in> set names) (descendants n)"

text \<open>The values \<open>json.loads\<close> returns. A float is given by the rational it stands for.\<close>

datatype json =
    JNull
  | JBool bool
  | JInt int
  | JFloat rat
  | JString str
  | JArray "json list"
  | JObject "(str \<times> json) list"

text \<open>Python's truth value of such a value, as \<open>if not duration\<close> and \<open>duration or "N/A"\<close>
  take it.\<close>

fun truthy :: "json \<Rightarrow> bool" where
  "truthy JNull = False"
| "truthy (JBool b) = b"
| "truthy (JInt i) = (i \<noteq> 0)"
| "truthy (JFloat r) = (r \<noteq> 0)"
| "truthy (JString s) = (s \<noteq> [])"
| "truthy (JArray xs) = (xs \<noteq> [])"
| "truthy (JObject kvs) = (kvs \<noteq> [])"

subsection \<open>Discovery of course links\<close>

text \<open>\<open>soup.select('a[href^="/learn/"]')\<close>.\<close>

definition select_learn_anchors :: "node \<Rightarrow> node list" where
  "select_learn_anchors soup =
     filter (\<lambda>a. case get_attr a (ascii ''href'') of None \<Rightarrow> False | Some h \<Rightarrow> prefix (ascii ''/learn/'') h)
       (find_all [ascii ''a''] soup)"

text \<open>The first loop of \<open>get_links_from_dom\<close>: the pairs \<open>(clean title, absolute URL)\<close>
  of the anchors with a truthy \<open>href\<close> and a truthy title, the title being the
  \<open>aria-label\<close> or else the stripped text.\<close>

definition anchor_link :: "node \<Rightarrow> (str \<times> str) option" where
  "anchor_link a =
     (let href = get_attr a (ascii ''href'');
          title = (case get_attr a (ascii ''aria-label'') of
                     Some l \<Rightarrow> if l \<noteq> [] then l else get_text [] True a
                   | None \<Rightarrow> get_text [] True a)
      in case href of
           None \<Rightarrow> None
         | Some h \<Rightarrow>
             if h \<noteq> [] \<and> title \<noteq> []
             then Some (clean_text (Some title), ascii ''https://www.coursera.org'' @ h)
             else None)"

definition raw_links :: "node \<Rightarrow> (str \<times> str) list" where
  "raw_links soup = List.map_filter anchor_link (select_learn_anchors soup)"

text \<open>The second loop: \<open>seen\<close> and \<open>uniq\<close> are the loop's two variables.\<close>

definition dedup_step ::
  "str \<times> str \<Rightarrow> str set \<times> (str \<times> str) list \<Rightarrow>
   str set \<times> (str \<times> str) list" where
  "dedup_step tu st =
     (case tu of (t, u) \<Rightarrow> case st of (seen, uniq) \<Rightarrow>
        if u \<notin> seen then (insert u seen, uniq @ [(t, u)]) else (seen, uniq))"

definition dedup_links :: "(str \<times> str) list \<Rightarrow> (str \<times> str) list" where
  "dedup_links links = snd (fold dedup_step links ({}, []))"

definition get_links_from_dom :: "node \<Rightarrow> (str \<times> str) list" where
  "get_links_from_dom soup = dedup_links (raw_links soup)"

text \<open>Two readings of "the first occurrence is kept", used to state what the loops
  compute: the recursive one follows the loop with its \<open>seen\<close> set, the other keeps the
  positions whose key did not occur at an earlier position.\<close>

fun first_seen :: "('a \<Rightarrow> 'k) \<Rightarrow> 'k set \<Rightarrow> 'a list \<Rightarrow> 'a list" where
  "first_seen key seen [] = []"
| "first_seen key seen (x # xs) =
     (if key x \<in> seen then first_seen key seen xs
      else x # first_seen key (insert (key x) seen) xs)"

definition first_occurrences :: "('a \<Rightarrow> 'k) \<Rightarrow> 'a list \<Rightarrow> 'a list" where
  "first_occurrences key xs =
     map (\<lambda>i. xs ! i)
       (filter (\<lambda>i. key (xs ! i) \<notin> key ` set (take i xs)) [0..<length xs])"

text \<open>The title of the first pair with a given URL.\<close>

definition first_title :: "(str \<times> str) list \<Rightarrow> str \<Rightarrow> str option" where
  "first_title links u = map_of (map (\<lambda>(t, u). (u, t)) links) u"

definition MAX_IDLE_SCROLLS :: nat where
  "MAX_IDLE_SCROLLS = 6"

text \<open>
  The scroll loop of \<open>collect_all_course_cards\<close>. The browser is given by the document it
  shows at each parse: \<open>page k\<close> is what the \<open>k\<close>-th call of \<open>get_links_from_dom\<close> parses
  (\<open>page 0\<close> for the initial snapshot, \<open>page k\<close> after the \<open>k\<close>-th round of scrolling; a failed
  scroll script is swallowed and changes nothing else). One call of \<open>scroll_loop\<close> is one
  round of \<open>while True\<close>, entered after \<open>k\<close> rounds with the loop variables \<open>results\<close> and
  \<open>idle\<close>. The loop has no bound on its rounds, so not returning is the value \<open>None\<close>. The
  number of rounds made is returned with the links.
\<close>

partial_function (option) scroll_loop ::
  "(nat \<Rightarrow> node) \<Rightarrow> nat \<Rightarrow> (str \<times> str) list \<Rightarrow> nat \<Rightarrow>
   ((str \<times> str) list \<times> nat) option" where
  "scroll_loop page k results idle =
     (let prev_count = length results;
          results' = get_links_from_dom (page (Suc k));
          idle' = (if length results' \<le> prev_count then idle + 1 else 0)
      in if idle' \<ge> MAX_IDLE_SCROLLS then Some (results', Suc k)
         else scroll_loop page (Suc k) results' idle')"

definition collect_all_course_cards ::
  "(nat \<Rightarrow> node) \<Rightarrow> ((str \<times> str) list \<times> nat) option" where
  "collect_all_course_cards page = scroll_loop page 0 (get_links_from_dom (page 0)) 0"

text \<open>The size of the \<open>k\<close>-th snapshot, and the idle counter after \<open>k\<close> rounds, as the loop
  updates it.\<close>

definition snapshot_size :: "(nat \<Rightarrow> node) \<Rightarrow> nat \<Rightarrow> nat" where
  "snapshot_size page k = length (get_links_from_dom (page k))"

fun idle_after :: "(nat \<Rightarrow> node) \<Rightarrow> nat \<Rightarrow> nat" where
  "idle_after page 0 = 0"
| "idle_after page (Suc k) =
     (if snapshot_size page (Suc k) \<le> snapshot_size page k then idle_after page k + 1 else 0)"

text \<open>A result page for the stall example of the specification: one course link at the
  start, one more after each of the first three rounds of scrolling, none after that.\<close>

definition demo_feed :: "nat \<Rightarrow> node" where
  "demo_feed k =
     Element (ascii ''[document]'') []
       (take (Suc (min k 3))
          [Element (ascii ''a'') [(ascii ''href'', ascii ''/learn/java'')] [Text (ascii ''Java Basics'')],
           Element (ascii ''a'') [(ascii ''href'', ascii ''/learn/python'')] [Text (ascii ''Python'')],
           Element (ascii ''a'') [(ascii ''href'', ascii ''/learn/sql'')] [Text (ascii ''SQL'')],
           Element (ascii ''a'') [(ascii ''href'', ascii ''/learn/css'')] [Text (ascii ''CSS'')]])"


text \<open>A result page that shows the same two course links for ever, the first alone before
  every odd round and both of them after it: no round after the first brings a link that
  was not there before, and the snapshot is longer after every odd round.\<close>

definition alt_feed :: "nat \<Rightarrow> node" where
  "alt_feed k =
     Element (ascii ''[document]'') []
       (take (if even k then 1 else 2)
          [Element (ascii ''a'') [(ascii ''href'', ascii ''/learn/java'')] [Text (ascii ''Java Basics'')],
           Element (ascii ''a'') [(ascii ''href'', ascii ''/learn/python'')] [Text (ascii ''Python'')]])"
subsection \<open>Queries on the document used by the detail extractor\<close>

text \<open>The value of an attribute as a selector sees it: the classes joined by single
  spaces for \<open>class\<close>, the text itself for any other attribute.\<close>

definition selector_value :: "node \<Rightarrow> str \<Rightarrow> str option" where
  "selector_value el name =
     (case get_attr el name of
        None \<Rightarrow> None
      | Some v \<Rightarrow> if name = ascii ''class'' then Some (join (ascii '' '') (split_ws v)) else Some v)"

text \<open>The two forms of selector in the program: \<open>[name*="part"]\<close> and \<open>.cls\<close>.\<close>

datatype selector = AttrContains str str | HasClass str

fun sel_matches :: "selector \<Rightarrow> node \<Rightarrow> bool" where
  "sel_matches (AttrContains name part) el =
     (case selector_value el name of None \<Rightarrow> False | Some v \<Rightarrow> contains part v)"
| "sel_matches (HasClass c) el =
     (case get_attr el (ascii ''class'') of None \<Rightarrow> False | Some v \<Rightarrow> c \<in> set (split_ws v))"

text \<open>\<open>soup.select(selector)\<close>.\<close>

definition select :: "selector \<Rightarrow> node \<Rightarrow> node list" where
  "select s soup = filter (\<lambda>d. is_element d \<and> sel_matches s d) (descendants soup)"

text \<open>\<open>tag.string\<close>: the string of a tag whose only child is a string, or a tag with such
  a \<open>string\<close>.\<close>

fun node_string :: "node \<Rightarrow> str option" where
  "node_string (Text s) = Some s"
| "node_string (Special k s) = Some s"
| "node_string (Element t a cs) = (case cs of [c] \<Rightarrow> node_string c | _ \<Rightarrow> None)"

text \<open>Every string of the document, ordinary or special, in document order, with the tag that holds it
  (\<open>el.parent\<close>) and the tags that follow that tag among its siblings
  (\<open>parent.find_next_siblings()\<close>). The arguments are a tag, the tags after it, and the
  children of the tag still to be visited.\<close>

fun string_sites :: "node \<Rightarrow> node list \<Rightarrow> node list \<Rightarrow> (str \<times> node \<times> node list) list" where
  "string_sites parent after [] = []"
| "string_sites parent after (Text s # rest) = (s, parent, after) # string_sites parent after rest"
| "string_sites parent after (Special k s # rest) =
     (s, parent, after) # string_sites parent after rest"
| "string_sites parent after (Element t a cs # rest) =
     string_sites (Element t a cs) (filter is_element rest) cs @ string_sites parent after rest"

text \<open>The cleaned text of an element, \<open>clean_text(el.get_text(" ", strip=True))\<close>.\<close>

definition element_text :: "node \<Rightarrow> str" where
  "element_text el = clean_text (Some (get_text (ascii '' '') True el))"

subsection \<open>Level extraction\<close>

text \<open>The loop over \<open>soup.find_all(["span", "div", "li"])\<close>: the first truthy
  \<open>normalize_level(el.get_text())\<close>.\<close>

fun first_level :: "node list \<Rightarrow> str option" where
  "first_level [] = None"
| "first_level (el # els) =
     (case normalize_level (get_text [] False el) of
        Some lev \<Rightarrow> if lev \<noteq> [] then Some lev else first_level els
      | None \<Rightarrow> first_level els)"

definition parse_level :: "node \<Rightarrow> str option" where
  "parse_level soup = first_level (find_all (map ascii [''span'', ''div'', ''li'']) soup)"

text \<open>The tags that directly hold a string with a level keyword.\<close>

definition keyword_holders :: "node \<Rightarrow> str list" where
  "keyword_holders soup =
     map (\<lambda>(s, parent, after). tag_name parent)
       (filter (\<lambda>(s, parent, after). normalize_level s \<noteq> None)
          (string_sites soup [] (children soup)))"

subsection \<open>Duration extraction\<close>

text \<open>Strategy 1: for each selector, for each selected element, the keyword sniff on
  the element's text; a candidate is taken when it is truthy and shorter than 50.\<close>

definition duration_selectors :: "selector list" where
  "duration_selectors =
     [AttrContains (ascii ''data-testid'') (ascii ''duration''),
      AttrContains (ascii ''class'') (ascii ''duration''),
      AttrContains (ascii ''class'') (ascii ''time''),
      AttrContains (ascii ''class'') (ascii ''Duration''),
      AttrContains (ascii ''aria-label'') (ascii ''duration''),
      AttrContains (ascii ''aria-label'') (ascii ''time''),
      HasClass (ascii ''rc-Duration''),
      HasClass (ascii ''duration-text''),
      HasClass (ascii ''course-duration'')]"

fun sniff_elements :: "node list \<Rightarrow> str option" where
  "sniff_elements [] = None"
| "sniff_elements (el # els) =
     (case extract_duration_like (element_text el) of
        Some d \<Rightarrow> if d \<noteq> [] \<and> length d < 50 then Some d else sniff_elements els
      | None \<Rightarrow> sniff_elements els)"

fun sniff_selectors :: "selector list \<Rightarrow> node \<Rightarrow> str option" where
  "sniff_selectors [] soup = None"
| "sniff_selectors (s # ss) soup =
     (case sniff_elements (select s soup) of
        Some d \<Rightarrow> Some d
      | None \<Rightarrow> sniff_selectors ss soup)"

definition strategy1 :: "node \<Rightarrow> str option" where
  "strategy1 soup = sniff_selectors duration_selectors soup"

text \<open>
  Strategy 2: the scripts of type \<open>application/ld+json\<close>. \<open>json.loads\<close> is a parameter,
  with \<open>None\<close> for a raised exception; so is Python's \<open>str\<close> on a value that is not a
  string. A script without a \<open>string\<close>, text that does not parse, and a value that is not
  a dictionary or has neither key, all pass to the next script. The result is \<open>None\<close> when
  no script assigns \<open>duration\<close>, and the assigned value otherwise, truthy or not.
\<close>

definition py_str :: "(json \<Rightarrow> str) \<Rightarrow> json \<Rightarrow> str" where
  "py_str repr v = (case v of JString s \<Rightarrow> s | _ \<Rightarrow> repr v)"

definition ld_scripts :: "node \<Rightarrow> node list" where
  "ld_scripts soup =
     filter (\<lambda>d. get_attr d (ascii ''type'') = Some (ascii ''application/ld+json'')) (find_all [ascii ''script''] soup)"

fun ld_duration :: "(str \<Rightarrow> json option) \<Rightarrow> (json \<Rightarrow> str) \<Rightarrow> node list \<Rightarrow> json option" where
  "ld_duration loads repr [] = None"
| "ld_duration loads repr (script # rest) =
     (case node_string script of
        None \<Rightarrow> ld_duration loads repr rest
      | Some s \<Rightarrow>
          (case loads s of
             Some (JObject kvs) \<Rightarrow>
               (case map_of kvs (ascii ''timeRequired'') of
                  Some v \<Rightarrow> Some v
                | None \<Rightarrow>
                    (case map_of kvs (ascii ''duration'') of
                       Some v \<Rightarrow> Some (JString (py_str repr v))
                     | None \<Rightarrow> ld_duration loads repr rest))
           | _ \<Rightarrow> ld_duration loads repr rest))"

definition strategy2 :: "(str \<Rightarrow> json option) \<Rightarrow> (json \<Rightarrow> str) \<Rightarrow> node \<Rightarrow> json option" where
  "strategy2 loads repr soup = ld_duration loads repr (ld_scripts soup)"

text \<open>Strategy 3: \<open>div\<close> and \<open>section\<close> tags whose \<open>class\<close> passes the test, which the query
  library applies to each class and then to the classes joined by spaces; inside them the
  elements whose text has a number with a unit, sniffed as in strategy 1.\<close>

definition info_keywords :: "str list" where
  "info_keywords = map ascii [''info'', ''detail'', ''overview'', ''about'', ''course-info'']"

definition info_class :: "str \<Rightarrow> bool" where
  "info_class x = (x \<noteq> [] \<and> list_ex (\<lambda>k. contains k (lower x)) info_keywords)"

definition is_info_section :: "node \<Rightarrow> bool" where
  "is_info_section el =
     (case get_attr el (ascii ''class'') of
        None \<Rightarrow> False
      | Some v \<Rightarrow> list_ex info_class (split_ws v) \<or> info_class (join (ascii '' '') (split_ws v)))"

definition unit_token :: rx where
  "unit_token =
     seqs [WordB, Many1 Digit, Many0 Space,
           alts (map ascii [''hour'', ''hours'', ''week'', ''weeks'', ''month'', ''months'', ''day'', ''days'',
                 ''hr'', ''hrs'', ''wk'', ''wks'']),
           WordB]"

fun sniff_unit_elements :: "node list \<Rightarrow> str option" where
  "sniff_unit_elements [] = None"
| "sniff_unit_elements (el # els) =
     (if re_search True unit_token (element_text el) \<noteq> None then
        (case extract_duration_like (element_text el) of
           Some d \<Rightarrow> if d \<noteq> [] \<and> length d < 50 then Some d else sniff_unit_elements els
         | None \<Rightarrow> sniff_unit_elements els)
      else sniff_unit_elements els)"

fun sniff_sections :: "node list \<Rightarrow> str option" where
  "sniff_sections [] = None"
| "sniff_sections (section # rest) =
     (case sniff_unit_elements (find_all (map ascii [''span'', ''div'', ''li'', ''p'']) section) of
        Some d \<Rightarrow> Some d
      | None \<Rightarrow> sniff_sections rest)"

definition strategy3 :: "node \<Rightarrow> str option" where
  "strategy3 soup =
     sniff_sections (filter is_info_section (find_all (map ascii [''div'', ''section'']) soup))"

text \<open>Strategy 4: sidebar and metadata selectors with \<open>parse_duration_from_text\<close>; any
  truthy result is taken.\<close>

definition metadata_selectors :: "selector list" where
  "metadata_selectors =
     [AttrContains (ascii ''class'') (ascii ''sidebar''), AttrContains (ascii ''class'') (ascii ''meta''),
      AttrContains (ascii ''class'') (ascii ''info''), AttrContains (ascii ''class'') (ascii ''details''),
      AttrContains (ascii ''class'') (ascii ''overview''), AttrContains (ascii ''class'') (ascii ''stats''),
      AttrContains (ascii ''class'') (ascii ''course-info''), AttrContains (ascii ''class'') (ascii ''CourseInfo'')]"

fun parse_elements :: "node list \<Rightarrow> str option" where
  "parse_elements [] = None"
| "parse_elements (el # els) =
     (case parse_duration_from_text (element_text el) of
        Some d \<Rightarrow> if d \<noteq> [] then Some d else parse_elements els
      | None \<Rightarrow> parse_elements els)"

fun parse_selectors :: "selector list \<Rightarrow> node \<Rightarrow> str option" where
  "parse_selectors [] soup = None"
| "parse_selectors (s # ss) soup =
     (case parse_elements (select s soup) of
        Some d \<Rightarrow> Some d
      | None \<Rightarrow> parse_selectors ss soup)"

definition strategy4 :: "node \<Rightarrow> str option" where
  "strategy4 soup = parse_selectors metadata_selectors soup"

text \<open>Strategy 5: for each keyword, the strings of the document in which it occurs
  (\<open>re.compile(keyword, re.I)\<close>, a literal), and for each of them the holding tag and up to
  three tags after it.\<close>

definition commitment_keywords :: "str list" where
  "commitment_keywords =
     map ascii
     [''commitment'', ''time to complete'', ''estimated time'', ''duration'', ''length'']"

fun parse_sites :: "(str \<times> node \<times> node list) list \<Rightarrow> str option" where
  "parse_sites [] = None"
| "parse_sites ((s, parent, after) # rest) =
     (case parse_elements (parent # take 3 after) of
        Some d \<Rightarrow> Some d
      | None \<Rightarrow> parse_sites rest)"

fun parse_keywords :: "str list \<Rightarrow> node \<Rightarrow> str option" where
  "parse_keywords [] soup = None"
| "parse_keywords (k # ks) soup =
     (case parse_sites
             (filter (\<lambda>site. re_search True (Lit k) (fst site) \<noteq> None)
                (string_sites soup [] (children soup))) of
        Some d \<Rightarrow> Some d
      | None \<Rightarrow> parse_keywords ks soup)"

definition strategy5 :: "node \<Rightarrow> str option" where
  "strategy5 soup = parse_keywords commitment_keywords soup"

text \<open>Strategy 6: the title and the headings.\<close>

definition strategy6 :: "node \<Rightarrow> str option" where
  "strategy6 soup = parse_elements (find_all (map ascii [''title'', ''h1'', ''h2'', ''h3'']) soup)"

text \<open>Strategy 7: three patterns on the cleaned text of the whole page, with \<open>re.I\<close>; the
  second is tried when the first does not match, the third when the second does not.\<close>

definition hours_per_week :: rx where
  "hours_per_week =
     seqs [number, Many0 Space, Opt (Seq (Lit (ascii ''to'')) (Many0 Space)), Opt number, Many0 Space,
           Alt (Seq (Lit (ascii ''hour'')) (Opt (Lit (ascii ''s'')))) (Seq (Lit (ascii ''hr'')) (Opt (Lit (ascii ''s'')))),
           Many0 Space,
           Alt (seqs [Lit (ascii ''per''), Many0 Space, Lit (ascii ''week'')]) (Lit (ascii ''weekly''))]"

definition complete_in :: rx where
  "complete_in =
     seqs [Lit (ascii ''complete''), Many0 Space, Lit (ascii ''in''), Many0 Space, number, Many0 Space,
           Alt (Seq (Lit (ascii ''week'')) (Opt (Lit (ascii ''s''))))
             (Alt (Seq (Lit (ascii ''month'')) (Opt (Lit (ascii ''s'')))) (Seq (Lit (ascii ''day'')) (Opt (Lit (ascii ''s'')))))]"

definition to_complete :: rx where
  "to_complete =
     seqs [number, Many0 Space,
           Alt (Seq (Lit (ascii ''week'')) (Opt (Lit (ascii ''s'')))) (Seq (Lit (ascii ''month'')) (Opt (Lit (ascii ''s'')))),
           Many0 Space,
           Alt (seqs [Lit (ascii ''to''), Many0 Space, Lit (ascii ''complete'')])
             (Alt (Lit (ascii ''duration'')) (Lit (ascii ''long'')))]"

definition strategy7 :: "node \<Rightarrow> str option" where
  "strategy7 soup =
     (let page_text = clean_text (Some (get_text (ascii '' '') False soup)) in
      case re_search True hours_per_week page_text of
        Some m \<Rightarrow> Some (strip m)
      | None \<Rightarrow>
          (case re_search True complete_in page_text of
             Some m \<Rightarrow> Some (strip m)
           | None \<Rightarrow>
               (case re_search True to_complete page_text of
                  Some m \<Rightarrow> Some (strip m)
                | None \<Rightarrow> None)))"

text \<open>Strategy 8: every \<open>span\<close>, \<open>div\<close>, \<open>li\<close> and \<open>p\<close> whose text has more than 5 and fewer
  than 100 characters.\<close>

fun parse_sized_elements :: "node list \<Rightarrow> str option" where
  "parse_sized_elements [] = None"
| "parse_sized_elements (el # els) =
     (if 5 < length (element_text el) \<and> length (element_text el) < 100 then
        (case parse_duration_from_text (element_text el) of
           Some d \<Rightarrow> if d \<noteq> [] then Some d else parse_sized_elements els
         | None \<Rightarrow> parse_sized_elements els)
      else parse_sized_elements els)"

definition strategy8 :: "node \<Rightarrow> str option" where
  "strategy8 soup = parse_sized_elements (find_all (map ascii [''span'', ''div'', ''li'', ''p'']) soup)"

text \<open>The cascade: \<open>duration\<close> starts as \<open>None\<close>; strategy 1 runs; each later strategy
  runs under \<open>if not duration\<close> and assigns only what it found.\<close>

definition assign :: "json \<Rightarrow> str option \<Rightarrow> json" where
  "assign duration found = (case found of Some d \<Rightarrow> JString d | None \<Rightarrow> duration)"

definition parse_duration :: "(str \<Rightarrow> json option) \<Rightarrow> (json \<Rightarrow> str) \<Rightarrow> node \<Rightarrow> json" where
  "parse_duration loads repr soup =
     (let duration = assign JNull (strategy1 soup);
          duration = (if \<not> truthy duration
                      then (case strategy2 loads repr soup of Some v \<Rightarrow> v | None \<Rightarrow> duration)
                      else duration);
          duration = (if \<not> truthy duration then assign duration (strategy3 soup) else duration);
          duration = (if \<not> truthy duration then assign duration (strategy4 soup) else duration);
          duration = (if \<not> truthy duration then assign duration (strategy5 soup) else duration);
          duration = (if \<not> truthy duration then assign duration (strategy6 soup) else duration);
          duration = (if \<not> truthy duration then assign duration (strategy7 soup) else duration);
          duration = (if \<not> truthy duration then assign duration (strategy8 soup) else duration)
      in duration)"





subsection \<open>Example pages\<close>

text \<open>A page whose only level keyword stands in a paragraph inside a \<open>div\<close>, and a page
  with a paragraph and a heading directly in the body.\<close>

definition level_page :: node where
  "level_page =
     Element (ascii ''[document]'') []
       [Element (ascii ''html'') []
          [Element (ascii ''body'') []
             [Element (ascii ''div'') [] [Element (ascii ''p'') [] [Text (ascii ''Beginner friendly course'')]]]]]"

definition plain_page :: node where
  "plain_page =
     Element (ascii ''[document]'') []
       [Element (ascii ''html'') []
          [Element (ascii ''body'') []
             [Element (ascii ''p'') [] [Text (ascii ''For the beginner'')],
              Element (ascii ''h1'') [] [Text (ascii ''Advanced SQL'')]]]]"

















subsection \<open>Concepts extraction\<close>

text \<open>Every tag of the document in document order, with the tag that holds it (\<open>h.parent\<close>)
  and the tags that follow it among its siblings (the first of them is
  \<open>h.find_next_sibling()\<close>). The arguments are a tag and its children still to be
  visited.\<close>

fun element_sites :: "node \<Rightarrow> node list \<Rightarrow> (node \<times> node \<times> node list) list" where
  "element_sites parent [] = []"
| "element_sites parent (Text s # rest) = element_sites parent rest"
| "element_sites parent (Special k s # rest) = element_sites parent rest"
| "element_sites parent (Element t a cs # rest) =
     (Element t a cs, parent, filter is_element rest)
       # element_sites (Element t a cs) cs @ element_sites parent rest"

text \<open>The heading pattern
  \<open>(what you('|\<dots>)ll learn|skills you('|\<dots>)ll gain|skills you will gain)\<close>, where the second
  apostrophe is the typographic one, \<open>U+2019\<close>.\<close>

definition apostrophe :: rx where
  "apostrophe = Alt (Lit [39]) (Lit [8217])"

definition learn_heading :: rx where
  "learn_heading =
     Alt (seqs [Lit (ascii ''what you''), apostrophe, Lit (ascii ''ll learn'')])
       (Alt (seqs [Lit (ascii ''skills you''), apostrophe, Lit (ascii ''ll gain'')])
          (Lit (ascii ''skills you will gain'')))"

text \<open>Strategy A, first loop: for each \<open>h2\<close> or \<open>h3\<close> whose cleaned text matches, up to
  three lists below its parent and up to three lists below its next sibling.\<close>

definition heading_lists :: "node \<times> node \<times> node list \<Rightarrow> node list" where
  "heading_lists site =
     (case site of (h, parent, after) \<Rightarrow>
        if re_search True learn_heading (clean_text (Some (get_text [] False h))) \<noteq> None
        then take 3 (find_all (map ascii [''ul'', ''ol'']) parent)
             @ (case after of [] \<Rightarrow> [] | sib # later \<Rightarrow> take 3 (find_all (map ascii [''ul'', ''ol'']) sib))
        else [])"

definition target_sections :: "node \<Rightarrow> node list" where
  "target_sections soup =
     concat (map heading_lists
       (filter (\<lambda>(h, parent, after). tag_name h \<in> set (map ascii [''h2'', ''h3'']))
          (element_sites soup (children soup))))"

text \<open>Strategy A, second loop: the cleaned text of every \<open>li\<close> of every collected list
  is appended when it is not empty and not yet in \<open>concepts\<close>.\<close>

definition add_item :: "node \<Rightarrow> str list \<Rightarrow> str list" where
  "add_item li cs =
     (let item = clean_text (Some (get_text [] False li)) in
      if item \<noteq> [] \<and> item \<notin> set cs then cs @ [item] else cs)"

definition strategy_a :: "node \<Rightarrow> str list" where
  "strategy_a soup =
     fold (\<lambda>lst cs. fold add_item (find_all [ascii ''li''] lst) cs) (target_sections soup) []"

text \<open>Strategy B: \<open>soup.select('span, div')\<close>; a text of two to six words with a word of
  the vocabulary is appended when it is not yet in \<open>concepts\<close>.\<close>

definition vocabulary :: "str list" where
  "vocabulary =
     map ascii
     [''python'', ''java'', ''c++'', ''c '', ''html'', ''css'', ''sql'',
      ''data'', ''oop'', ''api'', ''algorithms'', ''arrays'', ''pandas'',
      ''django'', ''spring'', ''react'', ''dom'', ''selectors'', ''queries'',
      ''object-oriented'', ''inheritance'', ''polymorphism'', ''encapsulation'',
      ''debug'', ''testing'', ''performance'', ''asynchronous'', ''promises'']"

definition add_chip :: "node \<Rightarrow> str list \<Rightarrow> str list" where
  "add_chip chip cs =
     (let txt = clean_text (Some (get_text [] False chip)) in
      if 1 < length (split_ws txt) \<and> length (split_ws txt) \<le> 6
         \<and> list_ex (\<lambda>k. contains k (lower txt)) vocabulary
      then (if txt \<notin> set cs then cs @ [txt] else cs)
      else cs)"

definition strategy_b :: "node \<Rightarrow> str list" where
  "strategy_b soup = fold add_chip (find_all (map ascii [''span'', ''div'']) soup) []"

definition collect_concepts :: "node \<Rightarrow> str list" where
  "collect_concepts soup =
     (let cs = strategy_a soup in if cs = [] then strategy_b soup else cs)"

text \<open>The last lines of \<open>parse_course_detail\<close>: the collected \<open>concepts\<close> are de-duplicated
  by a loop over \<open>seen\<close> and \<open>dedup\<close>, and \<open>dedup[:30]\<close> is returned.\<close>

definition dedup_concepts_step ::
  "str \<Rightarrow> str set \<times> str list \<Rightarrow> str set \<times> str list" where
  "dedup_concepts_step c st =
     (case st of (seen, dedup) \<Rightarrow>
        if c \<notin> seen then (insert c seen, dedup @ [c]) else (seen, dedup))"

definition finalize_concepts :: "str list \<Rightarrow> str list" where
  "finalize_concepts cs = take 30 (snd (fold dedup_concepts_step cs ({}, [])))"

definition parse_concepts :: "node \<Rightarrow> str list" where
  "parse_concepts soup = finalize_concepts (collect_concepts soup)"

text \<open>\<open>parse_course_detail\<close> returns the three results.\<close>

definition parse_course_detail ::
  "(str \<Rightarrow> json option) \<Rightarrow> (json \<Rightarrow> str) \<Rightarrow> node \<Rightarrow> json \<times> str option \<times> str list" where
  "parse_course_detail loads repr soup =
     (parse_duration loads repr soup, parse_level soup, parse_concepts soup)"

text \<open>A page with a skills heading and a list of 45 different items.\<close>

definition skills_page :: node where
  "skills_page =
     Element (ascii ''[document]'') []
       [Element (ascii ''html'') []
          [Element (ascii ''body'') []
             [Element (ascii ''section'') []
                [Element (ascii ''h2'') [] [Text (ascii ''Skills you will gain'')],
                 Element (ascii ''ul'') []
                   (map (\<lambda>c. Element (ascii ''li'') [] [Text (ascii ''Skill '' @ [c])])
                      (ascii ''abcdefghijklmnopqrstuvwxyzABCDEFGHIJKLMNOPQRS''))]]]]"

subsection \<open>The scrape driver\<close>

text \<open>The decimal digits of a natural number (the digit \<open>d\<close> is the code point \<open>48 + d\<close>),
  and \<open>f"{i:0wd}"\<close> for a non-negative \<open>i\<close>: the digits, padded with zeros on the left up to
  width \<open>w\<close>.\<close>

function dec :: "nat \<Rightarrow> str" where
  "dec n = (if n < 10 then [48 + int n] else dec (n div 10) @ [48 + int (n mod 10)])"
  by pat_completeness auto
termination
  by (relation "measure id") auto

declare dec.simps [simp del]

definition zfill :: "nat \<Rightarrow> str \<Rightarrow> str" where
  "zfill w s = replicate (w - length s) 48 @ s"

text \<open>The value of a string of decimal digits, used to tell ids apart.\<close>

definition digit_val :: "int \<Rightarrow> nat" where
  "digit_val c = (if 48 \<le> c \<and> c \<le> 57 then nat (c - 48) else 0)"

definition undec :: "str \<Rightarrow> nat" where
  "undec s = foldl (\<lambda>acc c. 10 * acc + digit_val c) 0 s"

record row =
  course_id :: str
  programming_language :: str
  course_name :: str
  course_duration :: json
  concepts :: str
  course_level :: str
  course_link :: str

definition RETRY_DETAIL :: nat where
  "RETRY_DETAIL = 2"

text \<open>The \<open>row\<close> dictionary built after a successful parse; \<open>n\<close> is \<open>len(data)\<close>.\<close>

definition make_row ::
  "nat \<Rightarrow> str \<Rightarrow> str \<Rightarrow> str \<Rightarrow> json \<Rightarrow> str option \<Rightarrow> str list \<Rightarrow> row" where
  "make_row n language title link duration level cs =
     \<lparr> course_id = ascii ''C'' @ zfill 4 (dec (n + 1)),
       programming_language = language,
       course_name = clean_text (Some title),
       course_duration = (if truthy duration then duration else JString (ascii ''N/A'')),
       concepts = (if cs \<noteq> [] then join (ascii ''; '') cs else ascii ''N/A''),
       course_level = (case level of
                         Some l \<Rightarrow> if l \<noteq> [] then l else ascii ''N/A''
                       | None \<Rightarrow> ascii ''N/A''),
       course_link = link \<rparr>"

text \<open>
  What one pass through the \<open>try\<close> block does: \<open>driver.get(link)\<close>, \<open>wait_body\<close>, the pause
  and \<open>parse_course_detail\<close> either give the parsed triple, or raise \<open>TimeoutException\<close> or
  \<open>WebDriverException\<close> (the first \<open>except\<close> clause), or raise another \<open>Exception\<close> (the
  second). The browser is a state \<open>'w\<close> with a function \<open>attempt\<close> that makes one pass for a
  link and gives the outcome and the next state.
\<close>

datatype outcome = Parsed json "str option" "str list" | Transient | Other

text \<open>What the driver does, in order: a pass through the \<open>try\<close> block for a link with its
  outcome, the pause \<open>jitter(2.0, 3.5)\<close> of the retry clause, and the pause
  \<open>jitter(0.8, 1.6)\<close> that ends the work on a link.\<close>

datatype event = Attempt str outcome | Backoff | Pace

fun is_attempt :: "event \<Rightarrow> bool" where
  "is_attempt (Attempt l out) = True"
| "is_attempt Backoff = False"
| "is_attempt Pace = False"

text \<open>\<open>k\<close> failed passes, each followed by its pause.\<close>

definition retries :: "str \<Rightarrow> nat \<Rightarrow> event list" where
  "retries link k = concat (replicate k [Attempt link Transient, Backoff])"

text \<open>The loop \<open>while tries <= RETRY_DETAIL\<close> for one link, entered with the counter
  \<open>tries\<close>: the row appended to \<open>data\<close> if any, the events, and the browser's state.\<close>

function visit ::
  "('w \<Rightarrow> str \<Rightarrow> outcome \<times> 'w) \<Rightarrow> str \<Rightarrow> str \<Rightarrow> str \<Rightarrow> nat \<Rightarrow> nat \<Rightarrow> 'w \<Rightarrow>
   row option \<times> event list \<times> 'w" where
  "visit attempt language title link n tries w =
     (if tries \<le> RETRY_DETAIL then
        (case attempt w link of
           (Parsed d l c, w') \<Rightarrow>
             (Some (make_row n language title link d l c), [Attempt link (Parsed d l c)], w')
         | (Transient, w') \<Rightarrow>
             (case visit attempt language title link n (tries + 1) w' of
                (r, evs, w'') \<Rightarrow> (r, Attempt link Transient # Backoff # evs, w''))
         | (Other, w') \<Rightarrow> (None, [Attempt link Other], w'))
      else (None, [], w))"
  by pat_completeness auto
termination
  by (relation "measure (\<lambda>(attempt, language, title, link, n, tries, w). Suc RETRY_DETAIL - tries)")
    auto

declare visit.simps [simp del]

text \<open>What \<open>m\<close> passes in a row for one link give, starting in state \<open>w\<close>: the yardstick
  for the retry loop.\<close>

fun outcome_seq :: "('w \<Rightarrow> str \<Rightarrow> outcome \<times> 'w) \<Rightarrow> str \<Rightarrow> 'w \<Rightarrow> nat \<Rightarrow> outcome list" where
  "outcome_seq attempt link w 0 = []"
| "outcome_seq attempt link w (Suc m) =
     (case attempt w link of (out, w') \<Rightarrow> out # outcome_seq attempt link w' m)"

fun is_transient :: "outcome \<Rightarrow> bool" where
  "is_transient Transient = True"
| "is_transient (Parsed d l c) = False"
| "is_transient Other = False"

text \<open>The loop \<open>for title, link in links\<close> of \<open>scrape_language\<close>, with its variables \<open>data\<close>
  and \<open>seen_links\<close>.\<close>

fun scrape_links ::
  "('w \<Rightarrow> str \<Rightarrow> outcome \<times> 'w) \<Rightarrow> str \<Rightarrow> (str \<times> str) list \<Rightarrow> row list \<Rightarrow>
   str set \<Rightarrow> 'w \<Rightarrow> row list \<times> event list \<times> 'w" where
  "scrape_links attempt language [] data seen_links w = (data, [], w)"
| "scrape_links attempt language ((title, link) # rest) data seen_links w =
     (if link \<in> seen_links then scrape_links attempt language rest data seen_links w
      else
        (case visit attempt language title link (length data) 0 w of
           (r, evs, w') \<Rightarrow>
             (case scrape_links attempt language rest
                     (case r of Some rw \<Rightarrow> data @ [rw] | None \<Rightarrow> data)
                     (insert link seen_links) w' of
                (out, evs', w'') \<Rightarrow> (out, evs @ Pace # evs', w''))))"

text \<open>\<open>scrape_language\<close> after discovery: \<open>links\<close> is what \<open>collect_all_course_cards\<close>
  returned.\<close>

definition scrape_language ::
  "('w \<Rightarrow> str \<Rightarrow> outcome \<times> 'w) \<Rightarrow> str \<Rightarrow> (str \<times> str) list \<Rightarrow> 'w \<Rightarrow>
   row list \<times> event list \<times> 'w" where
  "scrape_language attempt language links w = scrape_links attempt language links [] {} w"

text \<open>A site for the end-to-end example of the specification: every pass for the first
  course times out, every pass for any other course parses to a duration, a level and two
  concepts. The state counts the passes made.\<close>

definition flaky_site :: "nat \<Rightarrow> str \<Rightarrow> outcome \<times> nat" where
  "flaky_site w link =
     (if link = ascii ''https://www.coursera.org/learn/a'' then Transient
      else Parsed (JString (ascii ''6 weeks'')) (Some (ascii ''Beginner'')) (map ascii [''Loops'', ''Functions'']),
      Suc w)"

subsection \<open>The global resequencing of \<open>main\<close>\<close>

text \<open>\<open>main\<close> extends \<open>all_rows\<close> by the rows of each language in turn and then, after the
  loop over the languages, overwrites every \<open>course_id\<close>:
  \<open>for i, row in enumerate(all_rows, start=1): row["course_id"] = f"C{i:05d}"\<close>.
  The argument of \<open>main_rows\<close> is the list of the values \<open>scrape_language\<close> returned, one
  per language, in the order of the calls.\<close>

definition resequence :: "row list \<Rightarrow> row list" where
  "resequence all_rows =
     map (\<lambda>(i, r). r\<lparr>course_id := ascii ''C'' @ zfill 5 (dec i)\<rparr>)
       (zip [1..<Suc (length all_rows)] all_rows)"

definition main_rows :: "row list list \<Rightarrow> row list" where
  "main_rows lang_rows = resequence (fold (\<lambda>rows all_rows. all_rows @ rows) lang_rows [])"

section \<open>Properties\<close>

lemma ascii_Nil [simp]: "ascii [] = []"
  by (simp add: ascii_def)

lemma ascii_Cons [simp]: "ascii (c # cs) = of_char c # ascii cs"
  by (simp add: ascii_def)

subsection \<open>\<open>clean_text\<close>\<close>

lemma isspace_space [simp]: "isspace 32"
  by (simp add: isspace_def whitespace_ranges_def)

lemma rstrip_Nil [simp]: "rstrip [] = []"
  by (simp add: rstrip_def)

lemma rstrip_Cons: "rstrip (c # s) = (if rstrip s = [] \<and> isspace c then [] else c # rstrip s)"
  by (auto simp: rstrip_def dropWhile_append)

lemma split_ws_dropWhile: "split_ws (dropWhile isspace s) = split_ws s"
  by (induction s) auto

lemma split_ws_words:
  "w \<in> set (split_ws s) \<Longrightarrow> w \<noteq> [] \<and> (\<forall>c\<in>set w. \<not> isspace c)"
proof (induction s arbitrary: w rule: split_ws.induct)
  case 1
  then show ?case by simp
next
  case (2 c cs)
  show ?case
  proof (cases "isspace c")
    case True
    with 2(3) have "w \<in> set (split_ws cs)" by simp
    then show ?thesis by (rule 2(1)[OF True])
  next
    case False
    with 2(3) have "w = c # takeWhile (\<lambda>x. \<not> isspace x) cs
        \<or> w \<in> set (split_ws (dropWhile (\<lambda>x. \<not> isspace x) cs))"
      by simp
    then show ?thesis
    proof
      assume "w = c # takeWhile (\<lambda>x. \<not> isspace x) cs"
      then show ?thesis using False by (auto dest: set_takeWhileD)
    next
      assume "w \<in> set (split_ws (dropWhile (\<lambda>x. \<not> isspace x) cs))"
      then show ?thesis by (rule 2(2)[OF False])
    qed
  qed
qed

lemma join_sp_Nil_iff: "\<forall>w\<in>set ws. w \<noteq> [] \<Longrightarrow> join_sp ws = [] \<longleftrightarrow> ws = []"
  by (induction ws rule: join_sp.induct) auto

lemma join_split_Nil: "join_sp (split_ws s) = [] \<longleftrightarrow> split_ws s = []"
  by (rule join_sp_Nil_iff) (simp add: split_ws_words)

lemma join_sp_Cons_Cons: "join_sp ((c # w) # ws) = c # join_sp (w # ws)"
  by (cases ws) auto

lemma join_sp_Cons:
  "join_sp (w # ws) = (if ws = [] then w else w @ 32 # join_sp ws)"
  by (cases ws) auto

lemma hd_dropWhile_isspace:
  "dropWhile isspace s = [] \<or> \<not> isspace (hd (dropWhile isspace s))"
  by (metis hd_dropWhile)

text \<open>Stripping the right end of the substituted text: a leading whitespace run survives
  as one space unless the text holds no word at all.\<close>

lemma rstrip_sub_ws:
  "rstrip (sub_ws s) =
     (if s \<noteq> [] \<and> isspace (hd s) \<and> split_ws s \<noteq> []
      then 32 # join_sp (split_ws s)
      else join_sp (split_ws s))"
proof (induction s rule: sub_ws.induct)
  case 1
  then show ?case by simp
next
  case (2 c cs)
  show ?case
  proof (cases "isspace c")
    case True
    let ?d = "dropWhile isspace cs"
    have "rstrip (sub_ws ?d) = join_sp (split_ws ?d)"
      using 2(1)[OF True] hd_dropWhile_isspace[of cs] by auto
    then show ?thesis using True
      by (simp add: rstrip_Cons split_ws_dropWhile join_split_Nil)
  next
    case False
    note IH = 2(2)[OF False]
    show ?thesis
    proof (cases cs)
      case Nil
      then show ?thesis using False by (simp add: rstrip_Cons)
    next
      case (Cons c2 cs')
      show ?thesis
      proof (cases "isspace c2")
        case True
        then show ?thesis using False IH Cons
          by (simp add: rstrip_Cons join_split_Nil split_ws_dropWhile join_sp_Cons)
      next
        case c2: False
        then show ?thesis using False IH Cons
          by (simp add: rstrip_Cons join_split_Nil join_sp_Cons_Cons)
      qed
    qed
  qed
qed

lemma lstrip_sub_ws_id:
  "s = [] \<or> \<not> isspace (hd s) \<Longrightarrow> dropWhile isspace (sub_ws s) = sub_ws s"
  by (cases s) auto

lemma lstrip_sub_ws: "dropWhile isspace (sub_ws s) = sub_ws (dropWhile isspace s)"
proof (cases s)
  case Nil
  then show ?thesis by simp
next
  case (Cons c cs)
  let ?d = "dropWhile isspace cs"
  have "dropWhile isspace (sub_ws ?d) = sub_ws ?d"
    by (rule lstrip_sub_ws_id) (rule hd_dropWhile_isspace)
  then show ?thesis using Cons by auto
qed

lemma clean_text_join: "clean_text (Some s) = join_sp (split_ws s)"
proof -
  let ?d = "dropWhile isspace s"
  have "clean_text (Some s) = rstrip (sub_ws ?d)"
    by (simp add: clean_text_def strip_def rstrip_def lstrip_sub_ws)
  also have "\<dots> = join_sp (split_ws ?d)"
    using hd_dropWhile_isspace[of s] by (auto simp: rstrip_sub_ws)
  finally show ?thesis by (simp add: split_ws_dropWhile)
qed

lemma split_ws_word_append:
  "w \<noteq> [] \<Longrightarrow> \<forall>c\<in>set w. \<not> isspace c \<Longrightarrow> r = [] \<or> isspace (hd r) \<Longrightarrow>
   split_ws (w @ r) = w # split_ws r"
proof (cases w)
  case Nil
  assume "w \<noteq> []"
  with Nil show ?thesis by simp
next
  case (Cons c cs)
  assume a: "\<forall>c\<in>set w. \<not> isspace c" and r: "r = [] \<or> isspace (hd r)"
  have t: "takeWhile (\<lambda>x. \<not> isspace x) (cs @ r) = cs"
    using a r Cons by (cases r) (auto simp: takeWhile_append2 takeWhile_tail)
  have d: "dropWhile (\<lambda>x. \<not> isspace x) (cs @ r) = r"
    using a r Cons by (cases r) (auto simp: dropWhile_append2)
  show ?thesis using a Cons t d by simp
qed

lemma split_ws_join:
  "\<forall>w\<in>set ws. w \<noteq> [] \<and> (\<forall>c\<in>set w. \<not> isspace c) \<Longrightarrow> split_ws (join_sp ws) = ws"
proof (induction ws rule: join_sp.induct)
  case 1
  then show ?case by simp
next
  case (2 w)
  then show ?case using split_ws_word_append[of w "[]"] by simp
next
  case (3 w v va)
  have "split_ws (join_sp (v # va)) = v # va"
    using 3 by simp
  moreover have "split_ws (w @ 32 # join_sp (v # va)) =
      w # split_ws (32 # join_sp (v # va))"
    using 3(2) by (intro split_ws_word_append) auto
  ultimately show ?case by simp
qed

lemma clean_text_idem: "clean_text (Some (clean_text (Some s))) = clean_text (Some s)"
  by (simp add: clean_text_join split_ws_join split_ws_words)

lemma clean_text_example:
  "clean_text (Some [97, 32, 32, 32, 98, 10, 9, 99]) = ascii ''a b c''"
  by code_simp

lemma clean_text_nbsp: "clean_text (Some [160, 97, 160, 8195, 98, 12288]) = ascii ''a b''"
  by code_simp

text \<open>
  \<^bold>\<open>C8.\<close> \<open>clean_text\<close> is idempotent; its result is the words of the input (the maximal
  runs of non-whitespace characters) joined by single spaces, so every whitespace run is
  collapsed to one space and leading and trailing whitespace is gone; \<open>"a   b\n\tc"\<close> becomes
  \<open>"a b c"\<close>; and the absent input \<open>None\<close> gives the empty string. Whitespace is that of
  Unicode: a no-break space, an em space and an ideographic space are collapsed and trimmed
  like the ASCII ones.
\<close>

theorem clean_text_idempotent_collapse:
  "clean_text (Some (clean_text (Some s))) = clean_text (Some s)
   \<and> clean_text (Some s) = join_sp (split_ws s)
   \<and> clean_text (Some [97, 32, 32, 32, 98, 10, 9, 99]) = ascii ''a b c''
   \<and> clean_text (Some [160, 97, 160, 8195, 98, 12288]) = ascii ''a b''
   \<and> clean_text None = []
   \<and> clean_text (Some (clean_text None)) = clean_text None"
proof -
  have "clean_text None = []"
    by (simp add: clean_text_def strip_def)
  moreover have "clean_text (Some []) = []"
    by (simp add: clean_text_def strip_def)
  ultimately show ?thesis
    using clean_text_idem clean_text_join clean_text_example clean_text_nbsp by simp
qed

subsection \<open>\<open>normalize_level\<close>\<close>

lemma contains_sublist: "contains sub s = sublist sub s"
  by (induction s) (simp_all add: sublist_Cons_right)

lemma contains_iff: "contains sub s \<longleftrightarrow> (\<exists>p q. s = p @ sub @ q)"
  by (simp add: contains_sublist sublist_def)

text \<open>Lower-casing and an ASCII keyword. A character gives one code point, or \<open>i\<close> and
  \<open>U+0307\<close>; a sigma gives a code point outside ASCII; so a keyword of ASCII characters that
  does not end in \<open>i\<close> is found in the lower-cased text exactly where a block of the text
  lower-cases to it.\<close>

lemma lower_cp_shape: "(\<exists>x. lower_cp c = [x]) \<or> lower_cp c = [105, 775]"
  by (simp add: lower_cp_def)

lemma lower_from_plain: "931 \<notin> set u \<Longrightarrow> lower_from b u = concat (map lower_cp u)"
  by (induction u arbitrary: b) auto

lemma lower_from_plain_append:
  "931 \<notin> set u \<Longrightarrow> \<exists>b'. lower_from b (u @ q) = concat (map lower_cp u) @ lower_from b' q"
  by (induction u arbitrary: b) auto

lemma lower_from_append: "\<exists>X b'. lower_from b (p @ r) = X @ lower_from b' r"
proof (induction p arbitrary: b)
  case Nil
  show ?case by (rule exI[of _ "[]"]) auto
next
  case (Cons c p)
  let ?out = "if c = 931 then [if b \<and> \<not> cased_follows (p @ r) then 962 else 963] else lower_cp c"
  obtain X b' where "lower_from (if case_ignorable c then b else cased c) (p @ r)
      = X @ lower_from b' r"
    using Cons by blast
  then have "lower_from b ((c # p) @ r) = (?out @ X) @ lower_from b' r"
    by simp
  then show ?case by blast
qed

lemma lower_from_ascii: "\<forall>k\<in>set (lower_from b u). k < 128 \<Longrightarrow> 931 \<notin> set u"
  by (induction u arbitrary: b) (auto split: if_splits)

lemma prefix_lower_from:
  assumes "\<forall>k\<in>set kw. k < 128" and "kw = [] \<or> last kw \<noteq> 105"
    and "prefix kw (lower_from b t)"
  shows "\<exists>u q. t = u @ q \<and> concat (map lower_cp u) = kw \<and> 931 \<notin> set u"
  using assms
proof (induction t arbitrary: kw b)
  case Nil
  then show ?case by simp
next
  case (Cons c cs)
  show ?case
  proof (cases kw)
    case Nil
    then have "c # cs = [] @ (c # cs) \<and> concat (map lower_cp []) = kw \<and> 931 \<notin> set []"
      by simp
    then show ?thesis by blast
  next
    case kw: (Cons k ks)
    let ?rest = "lower_from (if case_ignorable c then b else cased c) cs"
    have k: "k < 128" using Cons.prems(1) kw by simp
    have c: "c \<noteq> 931"
    proof
      assume "c = 931"
      then have "k = 962 \<or> k = 963" using Cons.prems(3) kw by (auto split: if_splits)
      then show False using k by auto
    qed
    then have p: "prefix (k # ks) (lower_cp c @ ?rest)" using Cons.prems(3) kw by simp
    have "\<not> lower_cp c = [105, 775]"
    proof
      assume d: "lower_cp c = [105, 775]"
      then have "ks = [] \<or> (\<exists>ks'. ks = 775 # ks')" and "k = 105"
        using p by (auto simp: prefix_Cons)
      then show False using Cons.prems(1,2) kw by auto
    qed
    then obtain x where x: "lower_cp c = [x]" using lower_cp_shape[of c] by blast
    then have "prefix ks ?rest" and kx: "k = x" using p by auto
    moreover have "\<forall>k\<in>set ks. k < 128" using Cons.prems(1) kw by simp
    moreover have "ks = [] \<or> last ks \<noteq> 105" using Cons.prems(2) kw by (auto split: if_splits)
    ultimately obtain u q where "cs = u @ q" "concat (map lower_cp u) = ks" "931 \<notin> set u"
      using Cons.IH by blast
    then have "c # cs = (c # u) @ q \<and> concat (map lower_cp (c # u)) = kw \<and> 931 \<notin> set (c # u)"
      using x kx kw c by simp
    then show ?thesis by blast
  qed
qed

lemma contains_lower_from:
  assumes "\<forall>k\<in>set kw. k < 128" and "kw = [] \<or> last kw \<noteq> 105"
    and "contains kw (lower_from b t)"
  shows "\<exists>p u q. t = p @ u @ q \<and> concat (map lower_cp u) = kw \<and> 931 \<notin> set u"
  using assms(3)
proof (induction t arbitrary: b)
  case Nil
  then show ?case by simp
next
  case (Cons c cs)
  let ?rest = "lower_from (if case_ignorable c then b else cased c) cs"
  show ?case
  proof (cases "prefix kw (lower_from b (c # cs))")
    case True
    then obtain u q where "c # cs = [] @ u @ q \<and> concat (map lower_cp u) = kw \<and> 931 \<notin> set u"
      using prefix_lower_from[OF assms(1,2)] by fastforce
    then show ?thesis by blast
  next
    case False
    then have kw: "kw \<noteq> []" by auto
    have "contains kw ?rest"
    proof (cases "c = 931")
      case True
      then show ?thesis using Cons.prems False by (auto split: if_splits)
    next
      case c: False
      show ?thesis
      proof (cases "lower_cp c = [105, 775]")
        case True
        then have "prefix kw (775 # ?rest) \<or> contains kw ?rest"
          using Cons.prems False c by auto
        moreover have "\<not> prefix kw (775 # ?rest)"
          using kw assms(1) by (cases kw) auto
        ultimately show ?thesis by blast
      next
        case False
        then obtain x where "lower_cp c = [x]" using lower_cp_shape[of c] by blast
        then show ?thesis using Cons.prems \<open>\<not> prefix kw (lower_from b (c # cs))\<close> c by auto
      qed
    qed
    then obtain p u q where "cs = p @ u @ q" "concat (map lower_cp u) = kw" "931 \<notin> set u"
      using Cons.IH by blast
    then have "c # cs = (c # p) @ u @ q \<and> concat (map lower_cp u) = kw \<and> 931 \<notin> set u"
      by simp
    then show ?thesis by blast
  qed
qed

lemma contains_lower_iff:
  assumes "\<forall>k\<in>set kw. k < 128" and "kw = [] \<or> last kw \<noteq> 105"
  shows "contains kw (lower text) \<longleftrightarrow> (\<exists>p u q. text = p @ u @ q \<and> lower u = kw)"
proof
  assume "contains kw (lower text)"
  then obtain p u q where "text = p @ u @ q" "concat (map lower_cp u) = kw" "931 \<notin> set u"
    using contains_lower_from[OF assms] unfolding lower_def by blast
  then have "text = p @ u @ q \<and> lower u = kw"
    by (simp add: lower_def lower_from_plain)
  then show "\<exists>p u q. text = p @ u @ q \<and> lower u = kw" by blast
next
  assume "\<exists>p u q. text = p @ u @ q \<and> lower u = kw"
  then obtain p u q where t: "text = p @ u @ q" and u: "lower u = kw" by blast
  have plain: "931 \<notin> set u"
    using assms(1) u lower_from_ascii[of False u] by (simp add: lower_def)
  obtain X b' where "lower_from False (p @ u @ q) = X @ lower_from b' (u @ q)"
    using lower_from_append by blast
  moreover obtain b'' where "lower_from b' (u @ q) = concat (map lower_cp u) @ lower_from b'' q"
    using lower_from_plain_append[OF plain] by blast
  moreover have "concat (map lower_cp u) = kw"
    using u plain by (simp add: lower_def lower_from_plain)
  ultimately have "lower text = X @ kw @ lower_from b'' q"
    using t by (simp add: lower_def)
  then show "contains kw (lower text)"
    unfolding contains_iff by blast
qed

lemma level_keywords_plain:
  "\<forall>k\<in>set (ascii ''beginner''). k < 128" "ascii ''beginner'' = [] \<or> last (ascii ''beginner'') \<noteq> 105"
  "\<forall>k\<in>set (ascii ''intermediate''). k < 128"
  "ascii ''intermediate'' = [] \<or> last (ascii ''intermediate'') \<noteq> 105"
  "\<forall>k\<in>set (ascii ''advanced''). k < 128" "ascii ''advanced'' = [] \<or> last (ascii ''advanced'') \<noteq> 105"
  by simp_all

lemma contains_level_keyword:
  "contains (ascii ''beginner'') (lower text)
     \<longleftrightarrow> (\<exists>p u q. text = p @ u @ q \<and> lower u = ascii ''beginner'')"
  "contains (ascii ''intermediate'') (lower text)
     \<longleftrightarrow> (\<exists>p u q. text = p @ u @ q \<and> lower u = ascii ''intermediate'')"
  "contains (ascii ''advanced'') (lower text)
     \<longleftrightarrow> (\<exists>p u q. text = p @ u @ q \<and> lower u = ascii ''advanced'')"
  by (rule contains_lower_iff; rule level_keywords_plain)+

text \<open>
  \<^bold>\<open>C9.\<close> \<open>normalize_level\<close> looks for \<open>beginner\<close>, \<open>intermediate\<close>, \<open>advanced\<close> as
  substrings of the text, ignoring letter case (some block \<open>u\<close> of the text lower-cases to
  the keyword), in this order of priority, and returns the level of the first keyword that
  occurs, or \<open>None\<close> when none occurs. A text with both \<open>beginner\<close> and \<open>advanced\<close> gives
  \<open>Beginner\<close>.
\<close>

theorem normalize_level_priority:
  "normalize_level text =
     (if \<exists>p u q. text = p @ u @ q \<and> lower u = ascii ''beginner'' then Some (ascii ''Beginner'')
      else if \<exists>p u q. text = p @ u @ q \<and> lower u = ascii ''intermediate'' then Some (ascii ''Intermediate'')
      else if \<exists>p u q. text = p @ u @ q \<and> lower u = ascii ''advanced'' then Some (ascii ''Advanced'')
      else None)
   \<and> normalize_level (ascii ''This is an Intermediate course'') = Some (ascii ''Intermediate'')
   \<and> normalize_level (ascii ''no info'') = None
   \<and> normalize_level (ascii ''ADVANCED material, not for the beginner'') = Some (ascii ''Beginner'')"
proof -
  have a: "normalize_level (ascii ''This is an Intermediate course'') = Some (ascii ''Intermediate'')"
    by code_simp
  have b: "normalize_level (ascii ''no info'') = None"
    by code_simp
  have c: "normalize_level (ascii ''ADVANCED material, not for the beginner'') = Some (ascii ''Beginner'')"
    by code_simp
  show ?thesis
    unfolding a b c
    by (simp only: normalize_level_def Let_def contains_level_keyword simp_thms)
qed

subsection \<open>De-duplication of links and of concepts\<close>

lemma first_seen_keys: "key ` set (first_seen key seen xs) = key ` set xs - seen"
  by (induction xs arbitrary: seen) auto

lemma first_seen_distinct: "distinct (map key (first_seen key seen xs))"
  by (induction xs arbitrary: seen) (auto simp: first_seen_keys)

lemma first_seen_subseq: "subseq (first_seen key seen xs) xs"
  by (induction xs arbitrary: seen) auto

lemma first_seen_find:
  "x \<in> set (first_seen key seen xs) \<Longrightarrow> find (\<lambda>y. key y = key x) xs = Some x"
proof (induction xs arbitrary: seen)
  case Nil
  then show ?case by simp
next
  case (Cons a xs)
  show ?case
  proof (cases "key a \<in> seen")
    case True
    with Cons.prems have x: "x \<in> set (first_seen key seen xs)" by simp
    then have "key x \<in> key ` set (first_seen key seen xs)" by blast
    then have "key x \<notin> seen" by (simp add: first_seen_keys)
    then have "key a \<noteq> key x" using True by auto
    then show ?thesis using Cons.IH[OF x] by simp
  next
    case False
    with Cons.prems consider "x = a" | "x \<in> set (first_seen key (insert (key a) seen) xs)"
      by auto
    then show ?thesis
    proof cases
      case 1
      then show ?thesis by simp
    next
      case 2
      then have "key x \<in> key ` set (first_seen key (insert (key a) seen) xs)" by blast
      then have "key a \<noteq> key x" by (auto simp: first_seen_keys)
      then show ?thesis using Cons.IH[OF 2] by simp
    qed
  qed
qed

lemma first_seen_occurrences_gen:
  "first_seen key seen xs =
     map (\<lambda>i. xs ! i) (filter (\<lambda>i. key (xs ! i) \<notin> seen \<union> key ` set (take i xs)) [0..<length xs])"
proof (induction xs arbitrary: seen)
  case Nil
  then show ?case by simp
next
  case (Cons a xs)
  have up: "[0..<length (a # xs)] = 0 # map Suc [0..<length xs]"
    by (simp add: upt_conv_Cons map_Suc_upt del: upt_Suc)
  show ?case
    unfolding up
    by (auto simp add: Cons.IH filter_map comp_def simp del: upt_Suc
        intro!: arg_cong[where f = "map ((!) xs)"] filter_cong)
qed

lemma first_seen_occurrences: "first_seen key {} xs = first_occurrences key xs"
  by (simp add: first_seen_occurrences_gen first_occurrences_def)

lemma fold_dedup_step:
  "fold dedup_step links (seen, uniq) =
     (seen \<union> snd ` set links, uniq @ first_seen snd seen links)"
  by (induction links arbitrary: seen uniq) (auto simp: dedup_step_def)

lemma dedup_links_first_seen: "dedup_links links = first_seen snd {} links"
  by (simp add: dedup_links_def fold_dedup_step)

lemma fold_dedup_concepts_step:
  "fold dedup_concepts_step cs (seen, dedup) = (seen \<union> set cs, dedup @ first_seen id seen cs)"
  by (induction cs arbitrary: seen dedup) (auto simp: dedup_concepts_step_def)

lemma finalize_concepts_first_seen: "finalize_concepts cs = take 30 (first_seen id {} cs)"
  by (simp add: finalize_concepts_def fold_dedup_concepts_step)

lemma first_seen_distinct_id: "distinct xs \<Longrightarrow> set xs \<inter> seen = {} \<Longrightarrow> first_seen id seen xs = xs"
  by (induction xs arbitrary: seen) auto


lemma first_title_find:
  "find (\<lambda>y. snd y = u) links = Some (t, u) \<Longrightarrow> first_title links u = Some t"
  by (induction links) (auto simp: first_title_def split: if_splits)

lemma dedup_links_first_title:
  assumes "(t, u) \<in> set (dedup_links links)"
  shows "first_title links u = Some t"
proof -
  have "find (\<lambda>y. snd y = snd (t, u)) links = Some (t, u)"
    using assms unfolding dedup_links_first_seen by (rule first_seen_find)
  then show ?thesis by (simp add: first_title_find)
qed

text \<open>
  \<^bold>\<open>C4.\<close> \<open>get_links_from_dom\<close> returns the page's \<open>(title, URL)\<close> list de-duplicated by
  URL with the first occurrence kept: the result is made of the entries whose URL did not
  occur at an earlier position, in their order; so no URL occurs twice in it, no URL of
  the list is lost, the result is a subsequence of the list, and the title kept with a URL
  is the title of the first entry with that URL.
\<close>

theorem get_links_first_occurrence_kept:
  "get_links_from_dom soup = dedup_links (raw_links soup)
   \<and> dedup_links links = first_occurrences snd links
   \<and> distinct (map snd (dedup_links links))
   \<and> snd ` set (dedup_links links) = snd ` set links
   \<and> subseq (dedup_links links) links
   \<and> (\<forall>(t, u) \<in> set (dedup_links links). first_title links u = Some t)"
proof -
  have a: "get_links_from_dom soup = dedup_links (raw_links soup)"
    by (simp add: get_links_from_dom_def)
  have b: "dedup_links links = first_occurrences snd links"
    by (simp add: dedup_links_first_seen first_seen_occurrences)
  have c: "distinct (map snd (dedup_links links))"
    unfolding dedup_links_first_seen by (rule first_seen_distinct)
  have d: "snd ` set (dedup_links links) = snd ` set links"
    using first_seen_keys[of snd "{}" links] by (simp add: dedup_links_first_seen)
  have e: "subseq (dedup_links links) links"
    unfolding dedup_links_first_seen by (rule first_seen_subseq)
  have f: "\<forall>(t, u) \<in> set (dedup_links links). first_title links u = Some t"
    using dedup_links_first_title by blast
  from a b c d e f show ?thesis by blast
qed

theorem get_links_first_occurrence_kept_witness:
  "dedup_links [(ascii ''Java Basics'', ascii ''https://www.coursera.org/learn/java''),
                (ascii ''Python'', ascii ''https://www.coursera.org/learn/python''),
                (ascii ''Java Basics again'', ascii ''https://www.coursera.org/learn/java'')]
     = [(ascii ''Java Basics'', ascii ''https://www.coursera.org/learn/java''),
        (ascii ''Python'', ascii ''https://www.coursera.org/learn/python'')]
   \<and> first_title [(ascii ''Java Basics'', ascii ''https://www.coursera.org/learn/java''),
                (ascii ''Python'', ascii ''https://www.coursera.org/learn/python''),
                (ascii ''Java Basics again'', ascii ''https://www.coursera.org/learn/java'')]
         (ascii ''https://www.coursera.org/learn/java'') = Some (ascii ''Java Basics'')"
  using get_links_first_occurrence_kept
    [of "Element (ascii ''[document]'') [] []"
        "[(ascii ''Java Basics'', ascii ''https://www.coursera.org/learn/java''),
          (ascii ''Python'', ascii ''https://www.coursera.org/learn/python''),
          (ascii ''Java Basics again'', ascii ''https://www.coursera.org/learn/java'')]"]
  by (simp add: dedup_links_def dedup_step_def)

lemma skills_page_concepts:
  "length (collect_concepts skills_page) = 45
   \<and> parse_concepts skills_page = map (\<lambda>c. ascii ''Skill '' @ [c]) (ascii ''abcdefghijklmnopqrstuvwxyzABCD'')"
  by code_simp

text \<open>
  \<^bold>\<open>C5.\<close> The concepts list that \<open>parse_course_detail\<close> returns for a page has no
  duplicate, holds at most 30 strings, and is the first 30 of the first occurrences of the
  strings its two strategies collected, in their order. This holds for the final loop and
  slice on any list \<open>cs\<close> of collected candidates; when \<open>cs\<close> has 45 distinct items, the
  result is exactly the first 30 of them, as on the page \<open>skills_page\<close> with its list of
  45 items.
\<close>

theorem concepts_distinct_capped:
  "distinct (parse_concepts soup)
   \<and> length (parse_concepts soup) \<le> 30
   \<and> parse_concepts soup = take 30 (first_occurrences id (collect_concepts soup))
   \<and> snd (snd (parse_course_detail loads repr soup)) = parse_concepts soup
   \<and> distinct (finalize_concepts cs)
   \<and> length (finalize_concepts cs) \<le> 30
   \<and> finalize_concepts cs = take 30 (first_occurrences id cs)
   \<and> subseq (finalize_concepts cs) cs
   \<and> (distinct cs \<and> length cs = 45 \<longrightarrow>
        finalize_concepts cs = take 30 cs \<and> length (finalize_concepts cs) = 30)
   \<and> length (collect_concepts skills_page) = 45
   \<and> parse_concepts skills_page = map (\<lambda>c. ascii ''Skill '' @ [c]) (ascii ''abcdefghijklmnopqrstuvwxyzABCD'')"
proof -
  have fs: "\<And>xs. finalize_concepts xs = take 30 (first_seen id {} xs)"
    by (rule finalize_concepts_first_seen)
  have dist: "\<And>xs. distinct (finalize_concepts xs)"
  proof -
    fix xs :: "str list"
    have "distinct (first_seen id {} xs)"
      using first_seen_distinct[of id "{}" xs] by simp
    then show "distinct (finalize_concepts xs)"
      unfolding fs by (rule distinct_take)
  qed
  have len: "\<And>xs. length (finalize_concepts xs) \<le> 30"
    unfolding fs by simp
  have occ: "\<And>xs. finalize_concepts xs = take 30 (first_occurrences id xs)"
    unfolding fs by (simp add: first_seen_occurrences)
  have "subseq (take 30 (first_seen id {} cs)) (first_seen id {} cs)"
    by (metis append_take_drop_id prefix_def prefix_imp_subseq)
  then have d: "subseq (finalize_concepts cs) cs"
    unfolding fs using first_seen_subseq subseq_order.order_trans by blast
  have e: "distinct cs \<and> length cs = 45 \<longrightarrow>
      finalize_concepts cs = take 30 cs \<and> length (finalize_concepts cs) = 30"
    unfolding fs by (simp add: first_seen_distinct_id)
  have p: "snd (snd (parse_course_detail loads repr soup)) = parse_concepts soup"
    by (simp add: parse_course_detail_def)
  from dist[of "collect_concepts soup"] len[of "collect_concepts soup"]
    occ[of "collect_concepts soup"] p dist[of cs] len[of cs] occ[of cs] d e
    skills_page_concepts
  show ?thesis
    unfolding parse_concepts_def by (intro conjI) (assumption | blast)+
qed

theorem concepts_distinct_capped_witness:
  "length (finalize_concepts (map (\<lambda>c. [c]) (ascii ''abcdefghijklmnopqrstuvwxyzABCDEFGHIJKLMNOPQRS''))) = 30
   \<and> finalize_concepts (map (\<lambda>c. [c]) (ascii ''abcdefghijklmnopqrstuvwxyzABCDEFGHIJKLMNOPQRS''))
       = map (\<lambda>c. [c]) (ascii ''abcdefghijklmnopqrstuvwxyzABCD'')"
proof -
  let ?L = "map (\<lambda>c. [c]) (ascii ''abcdefghijklmnopqrstuvwxyzABCDEFGHIJKLMNOPQRS'')"
  have a: "distinct ?L \<and> length ?L = 45"
    by simp
  have "finalize_concepts ?L = take 30 ?L \<and> length (finalize_concepts ?L) = 30"
    using concepts_distinct_capped[of _ _ _ ?L] a by blast
  moreover have "take 30 ?L = map (\<lambda>c. [c]) (ascii ''abcdefghijklmnopqrstuvwxyzABCD'')"
    by simp
  ultimately show ?thesis by simp
qed

subsection \<open>The scroll loop\<close>

lemma scroll_loop_step:
  "scroll_loop page k (get_links_from_dom (page k)) (idle_after page k) =
     (if MAX_IDLE_SCROLLS \<le> idle_after page (Suc k)
      then Some (get_links_from_dom (page (Suc k)), Suc k)
      else scroll_loop page (Suc k) (get_links_from_dom (page (Suc k))) (idle_after page (Suc k)))"
  by (subst scroll_loop.simps) (simp add: Let_def snapshot_size_def)

lemma scroll_loop_reaches:
  "k < r \<Longrightarrow> MAX_IDLE_SCROLLS \<le> idle_after page r \<Longrightarrow>
   \<forall>j. k < j \<and> j < r \<longrightarrow> idle_after page j < MAX_IDLE_SCROLLS \<Longrightarrow>
   scroll_loop page k (get_links_from_dom (page k)) (idle_after page k) =
     Some (get_links_from_dom (page r), r)"
proof (induction "r - k" arbitrary: k)
  case 0
  then show ?case by simp
next
  case (Suc d)
  show ?case
  proof (cases "Suc k = r")
    case True
    then show ?thesis using Suc.prems(2) by (simp add: scroll_loop_step del: idle_after.simps)
  next
    case False
    then have lt: "Suc k < r" using Suc.prems(1) by simp
    then have small: "idle_after page (Suc k) < MAX_IDLE_SCROLLS"
      using Suc.prems(3) by blast
    have d: "d = r - Suc k" using Suc.hyps(2) by simp
    have "scroll_loop page (Suc k) (get_links_from_dom (page (Suc k))) (idle_after page (Suc k)) =
        Some (get_links_from_dom (page r), r)"
      using Suc.hyps(1)[OF d lt Suc.prems(2)] Suc.prems(3) by (simp del: idle_after.simps)
    then show ?thesis using small by (simp add: scroll_loop_step del: idle_after.simps)
  qed
qed

lemma scroll_loop_sound_aux:
  assumes "scroll_loop page k results idle = Some y"
  shows "results = get_links_from_dom (page k) \<longrightarrow> idle = idle_after page k \<longrightarrow>
    k < snd y \<and> MAX_IDLE_SCROLLS \<le> idle_after page (snd y)
    \<and> fst y = get_links_from_dom (page (snd y))
    \<and> (\<forall>j. k < j \<and> j < snd y \<longrightarrow> idle_after page j < MAX_IDLE_SCROLLS)"
proof (rule scroll_loop.raw_induct
    [where P = "\<lambda>page k results idle y.
       results = get_links_from_dom (page k) \<longrightarrow> idle = idle_after page k \<longrightarrow>
       k < snd y \<and> MAX_IDLE_SCROLLS \<le> idle_after page (snd y)
       \<and> fst y = get_links_from_dom (page (snd y))
       \<and> (\<forall>j. k < j \<and> j < snd y \<longrightarrow> idle_after page j < MAX_IDLE_SCROLLS)",
     OF _ assms])
  fix loop :: "(nat \<Rightarrow> node) \<Rightarrow> nat \<Rightarrow> (str \<times> str) list \<Rightarrow> nat \<Rightarrow>
      ((str \<times> str) list \<times> nat) option"
  fix page :: "nat \<Rightarrow> node" and k :: nat and results :: "(str \<times> str) list"
    and idle :: nat and y :: "(str \<times> str) list \<times> nat"
  assume IH: "\<And>page k results idle y. loop page k results idle = Some y \<Longrightarrow>
       results = get_links_from_dom (page k) \<longrightarrow> idle = idle_after page k \<longrightarrow>
       k < snd y \<and> MAX_IDLE_SCROLLS \<le> idle_after page (snd y)
       \<and> fst y = get_links_from_dom (page (snd y))
       \<and> (\<forall>j. k < j \<and> j < snd y \<longrightarrow> idle_after page j < MAX_IDLE_SCROLLS)"
  assume eq: "(let prev_count = length results;
          results' = get_links_from_dom (page (Suc k));
          idle' = if length results' \<le> prev_count then idle + 1 else 0
      in if MAX_IDLE_SCROLLS \<le> idle' then Some (results', Suc k)
         else loop page (Suc k) results' idle') = Some y"
  show "results = get_links_from_dom (page k) \<longrightarrow> idle = idle_after page k \<longrightarrow>
       k < snd y \<and> MAX_IDLE_SCROLLS \<le> idle_after page (snd y)
       \<and> fst y = get_links_from_dom (page (snd y))
       \<and> (\<forall>j. k < j \<and> j < snd y \<longrightarrow> idle_after page j < MAX_IDLE_SCROLLS)"
  proof (intro impI)
    assume r: "results = get_links_from_dom (page k)" and i: "idle = idle_after page k"
    have upd: "(if length (get_links_from_dom (page (Suc k))) \<le> length results then idle + 1 else 0)
        = idle_after page (Suc k)"
      using r i by (simp add: snapshot_size_def)
    show "k < snd y \<and> MAX_IDLE_SCROLLS \<le> idle_after page (snd y)
      \<and> fst y = get_links_from_dom (page (snd y))
      \<and> (\<forall>j. k < j \<and> j < snd y \<longrightarrow> idle_after page j < MAX_IDLE_SCROLLS)"
    proof (cases "MAX_IDLE_SCROLLS \<le> idle_after page (Suc k)")
      case True
      then have "y = (get_links_from_dom (page (Suc k)), Suc k)"
        using eq upd by (simp add: Let_def del: idle_after.simps)
      then show ?thesis using True by (auto simp del: idle_after.simps)
    next
      case False
      then have "loop page (Suc k) (get_links_from_dom (page (Suc k))) (idle_after page (Suc k)) = Some y"
        using eq upd by (simp add: Let_def del: idle_after.simps)
      from IH[OF this]
      have H: "Suc k < snd y \<and> MAX_IDLE_SCROLLS \<le> idle_after page (snd y)
          \<and> fst y = get_links_from_dom (page (snd y))
          \<and> (\<forall>j. Suc k < j \<and> j < snd y \<longrightarrow> idle_after page j < MAX_IDLE_SCROLLS)"
        by blast
      have "\<forall>j. k < j \<and> j < snd y \<longrightarrow> idle_after page j < MAX_IDLE_SCROLLS"
      proof (intro allI impI)
        fix j assume j: "k < j \<and> j < snd y"
        show "idle_after page j < MAX_IDLE_SCROLLS"
        proof (cases "j = Suc k")
          case True
          then show ?thesis using False by simp
        next
          case False
          then have "Suc k < j" using j by simp
          then show ?thesis using H j by blast
        qed
      qed
      then show ?thesis using H by simp
    qed
  qed
qed


lemma idle_after_ge:
  "m \<le> idle_after page r \<longleftrightarrow>
     m \<le> r \<and> (\<forall>j. r - m < j \<and> j \<le> r \<longrightarrow> snapshot_size page j \<le> snapshot_size page (j - 1))"
proof (induction r arbitrary: m)
  case 0
  then show ?case by auto
next
  case (Suc r)
  show ?case
  proof (cases m)
    case 0
    then show ?thesis by simp
  next
    case (Suc m')
    show ?thesis
    proof (cases "snapshot_size page (Suc r) \<le> snapshot_size page r")
      case True
      have "(\<forall>j. Suc r - m < j \<and> j \<le> Suc r \<longrightarrow> snapshot_size page j \<le> snapshot_size page (j - 1))
          \<longleftrightarrow> (\<forall>j. r - m' < j \<and> j \<le> r \<longrightarrow> snapshot_size page j \<le> snapshot_size page (j - 1))"
        using True Suc by (auto simp: le_Suc_eq)
      then show ?thesis using True Suc Suc.IH[of m'] by simp
    next
      case False
      have "Suc r - m < Suc r \<and> Suc r \<le> Suc r" using Suc by simp
      then have "\<not> (\<forall>j. Suc r - m < j \<and> j \<le> Suc r \<longrightarrow>
          snapshot_size page j \<le> snapshot_size page (j - 1))"
        using False by (metis diff_Suc_1)
      then show ?thesis using False Suc by simp
    qed
  qed
qed

lemma collect_iff:
  "collect_all_course_cards page = Some (res, r) \<longleftrightarrow>
     res = get_links_from_dom (page r) \<and> 0 < r \<and> MAX_IDLE_SCROLLS \<le> idle_after page r
     \<and> (\<forall>j. 0 < j \<and> j < r \<longrightarrow> idle_after page j < MAX_IDLE_SCROLLS)"
proof
  assume "collect_all_course_cards page = Some (res, r)"
  then have "scroll_loop page 0 (get_links_from_dom (page 0)) 0 = Some (res, r)"
    by (simp add: collect_all_course_cards_def)
  from scroll_loop_sound_aux[OF this] show
    "res = get_links_from_dom (page r) \<and> 0 < r \<and> MAX_IDLE_SCROLLS \<le> idle_after page r
     \<and> (\<forall>j. 0 < j \<and> j < r \<longrightarrow> idle_after page j < MAX_IDLE_SCROLLS)"
    by simp
next
  assume a: "res = get_links_from_dom (page r) \<and> 0 < r \<and> MAX_IDLE_SCROLLS \<le> idle_after page r
     \<and> (\<forall>j. 0 < j \<and> j < r \<longrightarrow> idle_after page j < MAX_IDLE_SCROLLS)"
  then have "scroll_loop page 0 (get_links_from_dom (page 0)) (idle_after page 0) =
      Some (get_links_from_dom (page r), r)"
    by (intro scroll_loop_reaches) blast+
  then show "collect_all_course_cards page = Some (res, r)"
    using a by (simp add: collect_all_course_cards_def)
qed

lemma collect_terminates:
  assumes "\<forall>k\<ge>N. snapshot_size page (Suc k) \<le> snapshot_size page k"
  shows "\<exists>res r. collect_all_course_cards page = Some (res, r) \<and> r \<le> N + 6"
proof -
  have "\<forall>j. N + 6 - 6 < j \<and> j \<le> N + 6 \<longrightarrow> snapshot_size page j \<le> snapshot_size page (j - 1)"
  proof (intro allI impI)
    fix j assume j: "N + 6 - 6 < j \<and> j \<le> N + 6"
    then obtain k where k: "j = Suc k" "N \<le> k" by (cases j) auto
    then show "snapshot_size page j \<le> snapshot_size page (j - 1)"
      using assms by simp
  qed
  then have "MAX_IDLE_SCROLLS \<le> idle_after page (N + 6)"
    unfolding MAX_IDLE_SCROLLS_def idle_after_ge[of 6 page "N + 6"] by simp
  then have ex: "\<exists>r. MAX_IDLE_SCROLLS \<le> idle_after page r" by blast
  define r where "r = (LEAST r. MAX_IDLE_SCROLLS \<le> idle_after page r)"
  have r: "MAX_IDLE_SCROLLS \<le> idle_after page r"
    unfolding r_def using ex by (rule LeastI_ex)
  have least: "\<And>j. j < r \<Longrightarrow> idle_after page j < MAX_IDLE_SCROLLS"
    unfolding r_def using not_less_Least by (metis not_le)
  have "r \<le> N + 6"
    unfolding r_def using \<open>MAX_IDLE_SCROLLS \<le> idle_after page (N + 6)\<close> by (rule Least_le)
  moreover have "0 < r"
    using r by (cases r) (simp_all add: MAX_IDLE_SCROLLS_def)
  ultimately show ?thesis
    using r least collect_iff[of page "get_links_from_dom (page r)" r] by blast
qed

lemma alt_feed_links:
  "get_links_from_dom (alt_feed k) =
     (if even k then [(ascii ''Java Basics'', ascii ''https://www.coursera.org/learn/java'')]
      else [(ascii ''Java Basics'', ascii ''https://www.coursera.org/learn/java''),
            (ascii ''Python'', ascii ''https://www.coursera.org/learn/python'')])"
proof (cases "even k")
  case True
  then have "alt_feed k = alt_feed 0" by (simp add: alt_feed_def)
  moreover have "get_links_from_dom (alt_feed 0) =
      [(ascii ''Java Basics'', ascii ''https://www.coursera.org/learn/java'')]"
    by code_simp
  ultimately show ?thesis using True by simp
next
  case False
  then have "alt_feed k = alt_feed 1" by (simp add: alt_feed_def)
  moreover have "get_links_from_dom (alt_feed 1) =
      [(ascii ''Java Basics'', ascii ''https://www.coursera.org/learn/java''),
       (ascii ''Python'', ascii ''https://www.coursera.org/learn/python'')]"
    by code_simp
  ultimately show ?thesis using False by simp
qed

lemma alt_feed_size: "snapshot_size alt_feed k = (if even k then 1 else 2)"
  by (simp add: snapshot_size_def alt_feed_links)

lemma alt_feed_idle: "idle_after alt_feed k = (if k = 0 then 0 else if even k then 1 else 0)"
  by (induction k) (simp_all add: alt_feed_size)

text \<open>
  \<^bold>\<open>C2\<close>, as stated, fails in its last part: a feed that stops producing new links need
  not make the loop return. \<open>alt_feed\<close> shows one link before every odd round and the same
  two links after it. Every snapshot after the first round holds only links of the first
  round, so nothing new is produced; but the snapshot is longer after every odd round, the
  idle counter goes back to zero there and never passes one, and the loop does not return.
\<close>

theorem alternating_feed_never_stops:
  "collect_all_course_cards alt_feed = None
   \<and> (\<forall>k. set (get_links_from_dom (alt_feed (Suc k))) \<subseteq> set (get_links_from_dom (alt_feed 1)))
   \<and> (\<forall>k. snapshot_size alt_feed k = (if even k then 1 else 2))
   \<and> (\<forall>k. idle_after alt_feed k \<le> 1)"
proof -
  have "collect_all_course_cards alt_feed \<noteq> Some (res, r)" for res r
    unfolding collect_iff by (simp add: alt_feed_idle MAX_IDLE_SCROLLS_def)
  then have "collect_all_course_cards alt_feed = None"
    by (cases "collect_all_course_cards alt_feed") auto
  moreover have "\<forall>k. set (get_links_from_dom (alt_feed (Suc k)))
      \<subseteq> set (get_links_from_dom (alt_feed 1))"
    by (simp add: alt_feed_links)
  ultimately show ?thesis
    by (simp add: alt_feed_size alt_feed_idle)
qed

text \<open>
  \<^bold>\<open>C2\<close>, amended. The scroll loop keeps an idle counter: after a round whose snapshot is
  not longer than the one before, the counter goes up by one, after a round whose snapshot
  is longer it is zero again, and the loop carries exactly this counter from round to round.
  The loop returns after round \<open>r\<close>, with the snapshot of that round, exactly when \<open>r\<close> is
  the first round at which the counter has reached \<open>MAX_IDLE_SCROLLS = 6\<close>, that is the first
  round that ends six rounds in a row without growth; it never returns earlier. When from
  some round \<open>N\<close> on no snapshot is longer than the one before (the size of the snapshot
  stops growing, which is more than that no new link appears), the loop returns, after
  round \<open>N + 6\<close> at the latest.
\<close>

theorem discovery_stops_after_six_idle_rounds:
  "idle_after page 0 = 0
   \<and> idle_after page (Suc k) =
       (if snapshot_size page (Suc k) \<le> snapshot_size page k then idle_after page k + 1 else 0)
   \<and> collect_all_course_cards page =
       scroll_loop page 0 (get_links_from_dom (page 0)) (idle_after page 0)
   \<and> scroll_loop page k (get_links_from_dom (page k)) (idle_after page k) =
       (if MAX_IDLE_SCROLLS \<le> idle_after page (Suc k)
        then Some (get_links_from_dom (page (Suc k)), Suc k)
        else scroll_loop page (Suc k) (get_links_from_dom (page (Suc k)))
               (idle_after page (Suc k)))
   \<and> (collect_all_course_cards page = Some (res, r) \<longleftrightarrow>
        res = get_links_from_dom (page r) \<and> 0 < r \<and> MAX_IDLE_SCROLLS \<le> idle_after page r
        \<and> (\<forall>j. 0 < j \<and> j < r \<longrightarrow> idle_after page j < MAX_IDLE_SCROLLS))
   \<and> (MAX_IDLE_SCROLLS \<le> idle_after page r \<longleftrightarrow>
        6 \<le> r \<and> (\<forall>j. r - 6 < j \<and> j \<le> r \<longrightarrow>
                    snapshot_size page j \<le> snapshot_size page (j - 1)))
   \<and> ((\<forall>k\<ge>N. snapshot_size page (Suc k) \<le> snapshot_size page k) \<longrightarrow>
        (\<exists>res r. collect_all_course_cards page = Some (res, r) \<and> r \<le> N + 6))"
proof -
  have a: "collect_all_course_cards page =
       scroll_loop page 0 (get_links_from_dom (page 0)) (idle_after page 0)"
    by (simp add: collect_all_course_cards_def)
  have b: "MAX_IDLE_SCROLLS \<le> idle_after page r \<longleftrightarrow>
        6 \<le> r \<and> (\<forall>j. r - 6 < j \<and> j \<le> r \<longrightarrow>
                    snapshot_size page j \<le> snapshot_size page (j - 1))"
    unfolding MAX_IDLE_SCROLLS_def by (rule idle_after_ge)
  have c: "idle_after page (Suc k) =
       (if snapshot_size page (Suc k) \<le> snapshot_size page k then idle_after page k + 1 else 0)"
    by simp
  have z: "idle_after page 0 = 0"
    by simp
  have t: "(\<forall>k\<ge>N. snapshot_size page (Suc k) \<le> snapshot_size page k) \<longrightarrow>
        (\<exists>res r. collect_all_course_cards page = Some (res, r) \<and> r \<le> N + 6)"
    using collect_terminates[of N page] by blast
  from z c a scroll_loop_step[of page k] collect_iff[of page res r] b t
  show ?thesis
    by (intro conjI) assumption+
qed

theorem discovery_stops_after_six_idle_rounds_witness:
  "collect_all_course_cards demo_feed = Some (get_links_from_dom (demo_feed 9), 9)
   \<and> snapshot_size demo_feed 3 = 4 \<and> snapshot_size demo_feed 9 = 4"
proof -
  have stall: "\<forall>k\<ge>3. snapshot_size demo_feed (Suc k) \<le> snapshot_size demo_feed k"
    by (simp add: snapshot_size_def demo_feed_def min_def)
  note stops = discovery_stops_after_six_idle_rounds
      [of demo_feed 0 "[]" 0 3, THEN conjunct2, THEN conjunct2, THEN conjunct2, THEN conjunct2,
       THEN conjunct2, THEN conjunct2, THEN mp, OF stall]
  from stops obtain res r where
    c: "collect_all_course_cards demo_feed = Some (res, r)" and le: "r \<le> 3 + 6"
    by blast
  note exits = discovery_stops_after_six_idle_rounds
      [of demo_feed 0 res r 0, THEN conjunct2, THEN conjunct2, THEN conjunct2, THEN conjunct2,
       THEN conjunct1, THEN iffD1, OF c]
  have r: "res = get_links_from_dom (demo_feed r)" "MAX_IDLE_SCROLLS \<le> idle_after demo_feed r"
    using exits by blast+
  have "list_all (\<lambda>j. idle_after demo_feed j < MAX_IDLE_SCROLLS) [0..<9]"
    by code_simp
  then have "\<forall>j<9. idle_after demo_feed j < MAX_IDLE_SCROLLS"
    unfolding list_all_iff by simp
  then have "\<not> r < 9" using r(2) by (meson not_le)
  then have "r = 9" using le by simp
  moreover have "snapshot_size demo_feed 3 = 4" "snapshot_size demo_feed 9 = 4"
    by code_simp+
  ultimately show ?thesis using c r(1) by simp
qed

subsection \<open>Global resequencing\<close>

lemma digit_val_nth: "d < 10 \<Longrightarrow> digit_val (48 + int d) = d"
  by (simp add: digit_val_def)

lemma undec_snoc: "undec (s @ [c]) = 10 * undec s + digit_val c"
  by (simp add: undec_def)

lemma undec_dec: "undec (dec n) = n"
proof (induction n rule: dec.induct)
  case (1 n)
  show ?case
  proof (cases "n < 10")
    case True
    then show ?thesis
      by (subst dec.simps) (simp add: undec_def digit_val_nth)
  next
    case False
    then have "undec (dec n) = 10 * undec (dec (n div 10)) + digit_val (48 + int (n mod 10))"
      by (subst dec.simps) (simp add: undec_snoc)
    also have "\<dots> = 10 * (n div 10) + n mod 10"
      using 1[OF False] by (simp add: digit_val_nth)
    finally show ?thesis by simp
  qed
qed

lemma digit_val_zero: "digit_val 48 = 0"
  by code_simp

lemma undec_zeros: "undec (replicate k 48 @ s) = undec s"
proof -
  have "foldl (\<lambda>acc c. 10 * acc + digit_val c) 0 (replicate k 48) = 0"
    by (induction k) (simp_all add: digit_val_zero)
  then show ?thesis by (simp add: undec_def)
qed

lemma undec_zfill_dec: "undec (zfill w (dec n)) = n"
  by (simp add: zfill_def undec_zeros undec_dec)

lemma id_inj: "ascii ''C'' @ zfill w (dec i) = ascii ''C'' @ zfill w (dec j) \<Longrightarrow> i = j"
  by (metis same_append_eq undec_zfill_dec)

lemma fold_extend: "fold (\<lambda>rows all_rows. all_rows @ rows) rs acc = acc @ concat rs"
  by (induction rs arbitrary: acc) auto

lemma resequence_length: "length (resequence rows) = length rows"
  by (simp add: resequence_def del: upt_Suc)

lemma resequence_nth:
  "i < length rows \<Longrightarrow> resequence rows ! i = (rows ! i)\<lparr>course_id := ascii ''C'' @ zfill 5 (dec (i + 1))\<rparr>"
  by (simp add: resequence_def nth_zip del: upt_Suc)

lemma resequence_ids:
  "map course_id (resequence rows) = map (\<lambda>i. ascii ''C'' @ zfill 5 (dec i)) [1..<Suc (length rows)]"
  by (rule nth_equalityI) (simp_all add: resequence_length resequence_nth del: upt_Suc)

lemma resequence_distinct: "distinct (map course_id (resequence rows))"
  unfolding resequence_ids
proof -
  have "inj_on (\<lambda>i. ascii ''C'' @ zfill 5 (dec i)) (set [1..<Suc (length rows)])"
    by (rule inj_onI) (rule id_inj)
  then show "distinct (map (\<lambda>i. ascii ''C'' @ zfill 5 (dec i)) [1..<Suc (length rows)])"
    by (simp add: distinct_map del: upt_Suc)
qed

lemma resequence_rest:
  "map (\<lambda>r. r\<lparr>course_id := []\<rparr>) (resequence rows) = map (\<lambda>r. r\<lparr>course_id := []\<rparr>) rows"
  by (rule nth_equalityI) (simp_all add: resequence_length resequence_nth)


lemma main_rows_concat: "main_rows rs = resequence (concat rs)"
  by (simp add: main_rows_def fold_extend)

lemma main_rows_example:
  "map course_id (main_rows
     [[make_row 0 (ascii ''Java'') (ascii ''a1'') (ascii ''u1'') JNull None [], make_row 1 (ascii ''Java'') (ascii ''a2'') (ascii ''u2'') JNull None []],
      [make_row 0 (ascii ''Python'') (ascii ''b1'') (ascii ''v1'') JNull None [], make_row 1 (ascii ''Python'') (ascii ''b2'') (ascii ''v2'') JNull None [],
       make_row 2 (ascii ''Python'') (ascii ''b3'') (ascii ''v3'') JNull None []]])
   = map ascii [''C00001'', ''C00002'', ''C00003'', ''C00004'', ''C00005'']"
  by code_simp

text \<open>
  \<^bold>\<open>C3.\<close> The final ids are given by one pass over the rows accumulated from all the
  languages, in their order (the first language's rows, then the second's, and so on):
  the \<open>i\<close>-th row (counting from 1) gets \<open>C\<close> followed by \<open>i\<close> in decimal, zero-padded to
  five digits, whatever id it had before, and nothing else of the row changes. So the ids
  are pairwise distinct and contiguous over the whole output; two rows from one language and
  three from the next get \<open>C00001\<close> to \<open>C00005\<close>.
\<close>

theorem main_resequences_globally:
  "length (main_rows rs) = length (concat rs)
   \<and> map course_id (main_rows rs) = map (\<lambda>i. ascii ''C'' @ zfill 5 (dec i)) [1..<Suc (length (concat rs))]
   \<and> map (\<lambda>r. r\<lparr>course_id := []\<rparr>) (main_rows rs) = map (\<lambda>r. r\<lparr>course_id := []\<rparr>) (concat rs)
   \<and> distinct (map course_id (main_rows rs))
   \<and> (\<forall>i < length (concat rs).
         main_rows rs ! i = (concat rs ! i)\<lparr>course_id := ascii ''C'' @ zfill 5 (dec (i + 1))\<rparr>)
   \<and> map course_id (main_rows
        [[make_row 0 (ascii ''Java'') (ascii ''a1'') (ascii ''u1'') JNull None [], make_row 1 (ascii ''Java'') (ascii ''a2'') (ascii ''u2'') JNull None []],
         [make_row 0 (ascii ''Python'') (ascii ''b1'') (ascii ''v1'') JNull None [], make_row 1 (ascii ''Python'') (ascii ''b2'') (ascii ''v2'') JNull None [],
          make_row 2 (ascii ''Python'') (ascii ''b3'') (ascii ''v3'') JNull None []]])
      = map ascii [''C00001'', ''C00002'', ''C00003'', ''C00004'', ''C00005'']"
proof -
  have a: "length (main_rows rs) = length (concat rs)"
    by (simp add: main_rows_concat resequence_length)
  have b: "map course_id (main_rows rs) =
      map (\<lambda>i. ascii ''C'' @ zfill 5 (dec i)) [1..<Suc (length (concat rs))]"
    unfolding main_rows_concat by (rule resequence_ids)
  have c: "map (\<lambda>r. r\<lparr>course_id := []\<rparr>) (main_rows rs) =
      map (\<lambda>r. r\<lparr>course_id := []\<rparr>) (concat rs)"
    unfolding main_rows_concat by (rule resequence_rest)
  have d: "distinct (map course_id (main_rows rs))"
    unfolding main_rows_concat by (rule resequence_distinct)
  have e: "\<forall>i < length (concat rs).
      main_rows rs ! i = (concat rs ! i)\<lparr>course_id := ascii ''C'' @ zfill 5 (dec (i + 1))\<rparr>"
    unfolding main_rows_concat by (simp add: resequence_nth)
  from a b c d e main_rows_example show ?thesis by blast
qed

theorem main_resequences_globally_witness:
  "(1::nat) < length (concat [[make_row 0 (ascii ''Java'') (ascii ''a1'') (ascii ''u1'') JNull None []],
                             [make_row 0 (ascii ''Python'') (ascii ''b1'') (ascii ''v1'') JNull None []]])
   \<and> course_id (main_rows [[make_row 0 (ascii ''Java'') (ascii ''a1'') (ascii ''u1'') JNull None []],
                           [make_row 0 (ascii ''Python'') (ascii ''b1'') (ascii ''v1'') JNull None []]] ! 1) = ascii ''C00002''
   \<and> course_id (concat [[make_row 0 (ascii ''Java'') (ascii ''a1'') (ascii ''u1'') JNull None []],
                        [make_row 0 (ascii ''Python'') (ascii ''b1'') (ascii ''v1'') JNull None []]] ! 1) = ascii ''C0001''"
proof -
  let ?rs = "[[make_row 0 (ascii ''Java'') (ascii ''a1'') (ascii ''u1'') JNull None []],
              [make_row 0 (ascii ''Python'') (ascii ''b1'') (ascii ''v1'') JNull None []]]"
  have len: "(1::nat) < length (concat ?rs)"
    by simp
  have "\<forall>i < length (concat ?rs).
      main_rows ?rs ! i = (concat ?rs ! i)\<lparr>course_id := ascii ''C'' @ zfill 5 (dec (i + 1))\<rparr>"
    using main_resequences_globally[of ?rs] by blast
  then have "main_rows ?rs ! 1 = (concat ?rs ! 1)\<lparr>course_id := ascii ''C'' @ zfill 5 (dec (1 + 1))\<rparr>"
    using len by blast
  moreover have "ascii ''C'' @ zfill 5 (dec (1 + 1)) = ascii ''C00002''"
    by code_simp
  moreover have "course_id (concat ?rs ! 1) = ascii ''C0001''"
    by code_simp
  ultimately show ?thesis
    using len by simp
qed

subsection \<open>The retry loop of the scrape driver\<close>

lemma retries_Suc: "retries link (Suc k) = Attempt link Transient # Backoff # retries link k"
  by (simp add: retries_def)

lemma retries_0: "retries link 0 = []"
  by (simp add: retries_def)

lemma visit_shape:
  "tries \<le> Suc RETRY_DETAIL \<Longrightarrow>
   \<exists>k fin r w'. visit attempt language title link n tries w = (r, retries link k @ fin, w') \<and>
     ((k = Suc RETRY_DETAIL - tries \<and> fin = [] \<and> r = None)
      \<or> (k < Suc RETRY_DETAIL - tries \<and> fin = [Attempt link Other] \<and> r = None)
      \<or> (k < Suc RETRY_DETAIL - tries \<and>
          (\<exists>d l c. fin = [Attempt link (Parsed d l c)]
             \<and> r = Some (make_row n language title link d l c))))"
proof (induction attempt language title link n tries w rule: visit.induct)
  case (1 attempt language title link n tries w)
  show ?case
  proof (cases "tries \<le> RETRY_DETAIL")
    case False
    then have "visit attempt language title link n tries w = (None, retries link 0 @ [], w)"
      by (subst visit.simps) (simp add: retries_0)
    moreover have "Suc RETRY_DETAIL - tries = 0" using False by simp
    ultimately show ?thesis by metis
  next
    case True
    obtain out w1 where a: "attempt w link = (out, w1)" by (cases "attempt w link")
    show ?thesis
    proof (cases out)
      case (Parsed d l c)
      then have "visit attempt language title link n tries w =
          (Some (make_row n language title link d l c), retries link 0 @ [Attempt link (Parsed d l c)], w1)"
        using True a by (subst visit.simps) (simp add: retries_0)
      moreover have "0 < Suc RETRY_DETAIL - tries" using True by simp
      ultimately show ?thesis by blast
    next
      case Other
      then have "visit attempt language title link n tries w =
          (None, retries link 0 @ [Attempt link Other], w1)"
        using True a by (subst visit.simps) (simp add: retries_0)
      moreover have "0 < Suc RETRY_DETAIL - tries" using True by simp
      ultimately show ?thesis by blast
    next
      case Transient
      have "tries + 1 \<le> Suc RETRY_DETAIL" using True by simp
      from 1(1)[OF True a[symmetric] Transient this]
      obtain k fin r w' where
        v: "visit attempt language title link n (tries + 1) w1 = (r, retries link k @ fin, w')" and
        s: "(k = Suc RETRY_DETAIL - (tries + 1) \<and> fin = [] \<and> r = None)
            \<or> (k < Suc RETRY_DETAIL - (tries + 1) \<and> fin = [Attempt link Other] \<and> r = None)
            \<or> (k < Suc RETRY_DETAIL - (tries + 1) \<and>
               (\<exists>d l c. fin = [Attempt link (Parsed d l c)]
                 \<and> r = Some (make_row n language title link d l c)))"
        by blast
      have "visit attempt language title link n tries w = (r, retries link (Suc k) @ fin, w')"
        using True a Transient v by (subst visit.simps) (simp add: retries_Suc)
      moreover have "Suc k = Suc RETRY_DETAIL - tries \<longleftrightarrow> k = Suc RETRY_DETAIL - (tries + 1)"
        using True by auto
      moreover have "Suc k < Suc RETRY_DETAIL - tries \<longleftrightarrow> k < Suc RETRY_DETAIL - (tries + 1)"
        using True by auto
      ultimately show ?thesis using s by blast
    qed
  qed
qed


lemma visit_exhausted: "RETRY_DETAIL < tries \<Longrightarrow> visit attempt language title link n tries w = (None, [], w)"
  by (subst visit.simps) simp

lemma visit_outcomes:
  "tries + m = Suc RETRY_DETAIL \<Longrightarrow>
   fst (visit attempt language title link n tries w) =
     (case dropWhile is_transient (outcome_seq attempt link w m) of
        Parsed d l c # rest \<Rightarrow> Some (make_row n language title link d l c)
      | _ \<Rightarrow> None)
   \<and> filter is_attempt (fst (snd (visit attempt language title link n tries w))) =
       map (Attempt link)
         (take (Suc (length (takeWhile is_transient (outcome_seq attempt link w m))))
            (outcome_seq attempt link w m))"
proof (induction m arbitrary: tries w)
  case 0
  then show ?case by (simp add: visit_exhausted)
next
  case (Suc m)
  then have t: "tries \<le> RETRY_DETAIL" and t': "(tries + 1) + m = Suc RETRY_DETAIL"
    by simp_all
  obtain out w1 where a: "attempt w link = (out, w1)" by (cases "attempt w link")
  show ?case
  proof (cases out)
    case (Parsed d l c)
    then show ?thesis using t a by (subst (1 2) visit.simps) simp
  next
    case Other
    then show ?thesis using t a by (subst (1 2) visit.simps) simp
  next
    case Transient
    obtain r evs w2 where v: "visit attempt language title link n (tries + 1) w1 = (r, evs, w2)"
      by (cases "visit attempt language title link n (tries + 1) w1")
    have "visit attempt language title link n tries w = (r, Attempt link Transient # Backoff # evs, w2)"
      using t a Transient v by (subst visit.simps) simp
    then show ?thesis
      using Suc.IH[OF t', of w1] v a Transient by simp
  qed
qed

lemma scrape_links_length:
  "length (fst (scrape_links attempt language links data seen w)) \<le> length data + length links"
proof (induction attempt language links data seen w rule: scrape_links.induct)
  case (1 attempt language data seen_links w)
  then show ?case by simp
next
  case (2 attempt language title link rest data seen_links w)
  show ?case
  proof (cases "link \<in> seen_links")
    case True
    then show ?thesis using 2(1) by simp
  next
    case False
    obtain r evs w' where v: "visit attempt language title link (length data) 0 w = (r, evs, w')"
      by (cases "visit attempt language title link (length data) 0 w")
    from 2(2)[OF False v[symmetric] refl]
    have "length (fst (scrape_links attempt language rest
             (case r of None \<Rightarrow> data | Some rw \<Rightarrow> data @ [rw]) (insert link seen_links) w'))
           \<le> length (case r of None \<Rightarrow> data | Some rw \<Rightarrow> data @ [rw]) + length rest" .
    then show ?thesis using False v by (auto split: prod.splits option.splits)
  qed
qed


lemma outcome_seq_length: "length (outcome_seq attempt link w m) = m"
  by (induction m arbitrary: w) (auto split: prod.splits)

lemma flaky_site_run:
  "scrape_language flaky_site (ascii ''Python'')
     [(ascii ''A'', ascii ''https://www.coursera.org/learn/a''), (ascii ''B'', ascii ''https://www.coursera.org/learn/b'')] 0
   = ([\<lparr>course_id = ascii ''C0001'', programming_language = ascii ''Python'', course_name = ascii ''B'',
        course_duration = JString (ascii ''6 weeks''), concepts = ascii ''Loops; Functions'',
        course_level = ascii ''Beginner'', course_link = ascii ''https://www.coursera.org/learn/b''\<rparr>],
      [Attempt (ascii ''https://www.coursera.org/learn/a'') Transient, Backoff,
       Attempt (ascii ''https://www.coursera.org/learn/a'') Transient, Backoff,
       Attempt (ascii ''https://www.coursera.org/learn/a'') Transient, Backoff, Pace,
       Attempt (ascii ''https://www.coursera.org/learn/b'')
         (Parsed (JString (ascii ''6 weeks'')) (Some (ascii ''Beginner'')) (map ascii [''Loops'', ''Functions''])), Pace],
      4)"
  by code_simp

text \<open>
  \<^bold>\<open>C6.\<close> For one link the driver makes at most \<open>1 + RETRY_DETAIL = 3\<close> passes through
  navigation and extraction. The events of a link are \<open>k\<close> transient failures, each followed
  by the retry pause, and then either nothing (\<open>k = 3\<close>: the retries are used up, no row),
  or one pass that fails otherwise (no further pass, no row), or one pass that succeeds
  (the row is built). The passes made are the first ones of the three possible passes, up
  to and including the first that is not a transient failure. A link without a row leaves
  \<open>data\<close> as it is, and the loop goes on with the remaining links; a link adds at most one
  row.
\<close>

theorem visit_retries_bounded:
  "(\<exists>k fin r w'.
       visit attempt language title link (length data) 0 w = (r, retries link k @ fin, w')
       \<and> ((k = 3 \<and> fin = [] \<and> r = None)
          \<or> (k < 3 \<and> fin = [Attempt link Other] \<and> r = None)
          \<or> (k < 3 \<and> (\<exists>d l c. fin = [Attempt link (Parsed d l c)]
                \<and> r = Some (make_row (length data) language title link d l c)))))
   \<and> length (filter is_attempt (fst (snd (visit attempt language title link (length data) 0 w))))
       \<le> 1 + RETRY_DETAIL
   \<and> 1 + RETRY_DETAIL = 3
   \<and> filter is_attempt (fst (snd (visit attempt language title link (length data) 0 w))) =
       map (Attempt link)
         (take (Suc (length (takeWhile is_transient (outcome_seq attempt link w 3))))
            (outcome_seq attempt link w 3))
   \<and> fst (visit attempt language title link (length data) 0 w) =
       (case dropWhile is_transient (outcome_seq attempt link w 3) of
          Parsed d l c # later \<Rightarrow> Some (make_row (length data) language title link d l c)
        | _ \<Rightarrow> None)
   \<and> (link \<notin> seen \<longrightarrow>
        fst (scrape_links attempt language ((title, link) # rest) data seen w) =
          (case visit attempt language title link (length data) 0 w of
             (r, evs, w') \<Rightarrow>
               fst (scrape_links attempt language rest
                      (case r of None \<Rightarrow> data | Some rw \<Rightarrow> data @ [rw])
                      (insert link seen) w')))
   \<and> length (fst (scrape_links attempt language links data seen w)) \<le> length data + length links"
proof -
  have three: "Suc RETRY_DETAIL = 3"
    by (simp add: RETRY_DETAIL_def)
  have a: "\<exists>k fin r w'.
       visit attempt language title link (length data) 0 w = (r, retries link k @ fin, w')
       \<and> ((k = 3 \<and> fin = [] \<and> r = None)
          \<or> (k < 3 \<and> fin = [Attempt link Other] \<and> r = None)
          \<or> (k < 3 \<and> (\<exists>d l c. fin = [Attempt link (Parsed d l c)]
                \<and> r = Some (make_row (length data) language title link d l c))))"
    using visit_shape[of 0 attempt language title link "length data" w] by (simp add: three)
  have o: "fst (visit attempt language title link (length data) 0 w) =
       (case dropWhile is_transient (outcome_seq attempt link w 3) of
          Parsed d l c # later \<Rightarrow> Some (make_row (length data) language title link d l c)
        | _ \<Rightarrow> None)
     \<and> filter is_attempt (fst (snd (visit attempt language title link (length data) 0 w))) =
       map (Attempt link)
         (take (Suc (length (takeWhile is_transient (outcome_seq attempt link w 3))))
            (outcome_seq attempt link w 3))"
    using visit_outcomes[of 0 3 attempt language title link "length data" w] by (simp add: three)
  have b: "length (filter is_attempt (fst (snd (visit attempt language title link (length data) 0 w))))
       \<le> 1 + RETRY_DETAIL"
    using o by (simp add: outcome_seq_length three)
  have c: "link \<notin> seen \<longrightarrow>
        fst (scrape_links attempt language ((title, link) # rest) data seen w) =
          (case visit attempt language title link (length data) 0 w of
             (r, evs, w') \<Rightarrow>
               fst (scrape_links attempt language rest
                      (case r of None \<Rightarrow> data | Some rw \<Rightarrow> data @ [rw])
                      (insert link seen) w'))"
    by (auto split: prod.splits option.splits)
  from a b c o three scrape_links_length show ?thesis
    by simp
qed

theorem visit_retries_bounded_witness:
  "(ascii ''https://www.coursera.org/learn/a'') \<notin> ({} :: str set)
   \<and> fst (visit flaky_site (ascii ''Python'') (ascii ''A'') (ascii ''https://www.coursera.org/learn/a'') (length ([] :: row list)) 0 0)
       = None
   \<and> fst (scrape_links flaky_site (ascii ''Python'')
        [(ascii ''A'', ascii ''https://www.coursera.org/learn/a''), (ascii ''B'', ascii ''https://www.coursera.org/learn/b'')]
        [] {} 0)
     = [\<lparr>course_id = ascii ''C0001'', programming_language = ascii ''Python'', course_name = ascii ''B'',
         course_duration = JString (ascii ''6 weeks''), concepts = ascii ''Loops; Functions'',
         course_level = ascii ''Beginner'', course_link = ascii ''https://www.coursera.org/learn/b''\<rparr>]"
proof -
  have v: "visit flaky_site (ascii ''Python'') (ascii ''A'') (ascii ''https://www.coursera.org/learn/a'')
      (length ([] :: row list)) 0 0
      = (None, retries (ascii ''https://www.coursera.org/learn/a'') 3, 3)"
    by code_simp
  note step = visit_retries_bounded
      [of flaky_site "ascii ''Python''" "ascii ''A''" "ascii ''https://www.coursera.org/learn/a''" "[]" 0 "{}"
          "[(ascii ''B'', ascii ''https://www.coursera.org/learn/b'')]",
       THEN conjunct2, THEN conjunct2, THEN conjunct2, THEN conjunct2, THEN conjunct2,
       THEN conjunct1, THEN mp]
  have "fst (scrape_links flaky_site (ascii ''Python'')
        [(ascii ''A'', ascii ''https://www.coursera.org/learn/a''), (ascii ''B'', ascii ''https://www.coursera.org/learn/b'')]
        [] {} 0)
     = (case visit flaky_site (ascii ''Python'') (ascii ''A'') (ascii ''https://www.coursera.org/learn/a'')
               (length ([] :: row list)) 0 0 of
          (r, evs, w') \<Rightarrow>
            fst (scrape_links flaky_site (ascii ''Python'') [(ascii ''B'', ascii ''https://www.coursera.org/learn/b'')]
                   (case r of None \<Rightarrow> [] | Some rw \<Rightarrow> [] @ [rw])
                   (insert (ascii ''https://www.coursera.org/learn/a'') {}) w'))"
    by (rule step) simp
  also have "\<dots> = fst (scrape_links flaky_site (ascii ''Python'')
         [(ascii ''B'', ascii ''https://www.coursera.org/learn/b'')] []
         (insert (ascii ''https://www.coursera.org/learn/a'') {}) 3)"
    unfolding v by (simp del: scrape_links.simps)
  also have "\<dots> = [\<lparr>course_id = ascii ''C0001'', programming_language = ascii ''Python'', course_name = ascii ''B'',
         course_duration = JString (ascii ''6 weeks''), concepts = ascii ''Loops; Functions'',
         course_level = ascii ''Beginner'', course_link = ascii ''https://www.coursera.org/learn/b''\<rparr>]"
    by code_simp
  finally show ?thesis
    unfolding v by simp
qed

subsection \<open>The regular-expression detector\<close>

lemma rx_match_Seq_nonempty:
  "rx_match ic (Seq a b) st \<noteq> [] \<longleftrightarrow> (\<exists>m \<in> set (rx_match ic a st). rx_match ic b m \<noteq> [])"
  by auto

lemma rx_match_Many0_nonempty: "rx_match ic (Many0 c) st \<noteq> []"
  by simp

lemma rx_match_Opt_nonempty: "rx_match ic (Opt a) st \<noteq> []"
  by simp

lemma advance_site:
  "n \<le> length (snd st) \<Longrightarrow>
   \<exists>w. snd st = w @ snd (advance n st) \<and>
       fst (advance n st) = (if w = [] then fst st else Some (last w))"
proof (cases "n = 0")
  case True
  then show ?thesis by (simp add: advance_def)
next
  case False
  assume n: "n \<le> length (snd st)"
  have "snd st = take n (snd st) @ snd (advance n st)"
    using False by (simp add: advance_def)
  moreover have "take n (snd st) \<noteq> []"
    using False n by auto
  moreover have "last (take n (snd st)) = snd st ! (n - 1)"
  proof -
    have "take n (snd st) \<noteq> []"
      using False n by auto
    then have "last (take n (snd st)) = take n (snd st) ! (length (take n (snd st)) - 1)"
      by (rule last_conv_nth)
    also have "\<dots> = take n (snd st) ! (n - 1)"
      using n by simp
    also have "\<dots> = snd st ! (n - 1)"
      using False by simp
    finally show ?thesis .
  qed
  ultimately show ?thesis
    using False by (metis advance_def fst_conv)
qed

lemma rx_match_site:
  "m \<in> set (rx_match ic r st) \<Longrightarrow>
   \<exists>w. snd st = w @ snd m \<and> fst m = (if w = [] then fst st else Some (last w))"
proof (induction r arbitrary: st m)
  case (Lit s)
  then have p: "lit_matches ic s (snd st)" and m: "m = advance (length s) st"
    by (auto split: if_splits)
  have "length s \<le> length (snd st)"
    using p by (auto simp: lit_matches_def lower_def dest: prefix_length_le split: if_splits)
  then show ?case unfolding m by (rule advance_site)
next
  case (Many1 c)
  then have "m \<in> (\<lambda>n. advance n st) ` set [1..<Suc (length (takeWhile (in_cls c) (snd st)))]"
    by simp
  then obtain n where "n \<in> set [1..<Suc (length (takeWhile (in_cls c) (snd st)))]"
    and m: "m = advance n st"
    by blast
  then have n: "n \<le> length (takeWhile (in_cls c) (snd st))"
    by (simp del: upt_Suc)
  have "n \<le> length (snd st)"
    using n length_takeWhile_le[of "in_cls c" "snd st"] by linarith
  then show ?case unfolding m by (rule advance_site)
next
  case (Many0 c)
  then have "m \<in> (\<lambda>n. advance n st) ` set [0..<Suc (length (takeWhile (in_cls c) (snd st)))]"
    by simp
  then obtain n where "n \<in> set [0..<Suc (length (takeWhile (in_cls c) (snd st)))]"
    and m: "m = advance n st"
    by blast
  then have n: "n \<le> length (takeWhile (in_cls c) (snd st))"
    by (simp del: upt_Suc)
  have "n \<le> length (snd st)"
    using n length_takeWhile_le[of "in_cls c" "snd st"] by linarith
  then show ?case unfolding m by (rule advance_site)
next
  case (Seq a b)
  then obtain k where k: "k \<in> set (rx_match ic a st)" and mk: "m \<in> set (rx_match ic b k)"
    by auto
  from Seq.IH(1)[OF k] obtain w1 where
    w1: "snd st = w1 @ snd k" "fst k = (if w1 = [] then fst st else Some (last w1))" by blast
  from Seq.IH(2)[OF mk] obtain w2 where
    w2: "snd k = w2 @ snd m" "fst m = (if w2 = [] then fst k else Some (last w2))" by blast
  have "snd st = (w1 @ w2) @ snd m" using w1 w2 by simp
  moreover have "fst m = (if w1 @ w2 = [] then fst st else Some (last (w1 @ w2)))"
    using w1 w2 by simp
  ultimately show ?case by blast
next
  case (Alt a b)
  then consider "m \<in> set (rx_match ic a st)" | "m \<in> set (rx_match ic b st)" by auto
  then show ?case
  proof cases
    case 1
    then show ?thesis by (rule Alt.IH(1))
  next
    case 2
    then show ?thesis by (rule Alt.IH(2))
  qed
next
  case (Opt a)
  then consider "m \<in> set (rx_match ic a st)" | "m = st" by auto
  then show ?case
  proof cases
    case 1
    then show ?thesis by (rule Opt.IH)
  next
    case 2
    then show ?thesis by simp
  qed
next
  case WordB
  then have "m = st" by (auto split: if_splits)
  then show ?case by simp
qed


lemma later_site_refl: "later_site st st"
  by (simp add: later_site_def)

lemma later_site_trans: "later_site a b \<Longrightarrow> later_site b c \<Longrightarrow> later_site a c"
proof -
  assume "later_site a b" "later_site b c"
  then obtain w1 w2 where
    w1: "snd a = w1 @ snd b" "fst b = (if w1 = [] then fst a else Some (last w1))" and
    w2: "snd b = w2 @ snd c" "fst c = (if w2 = [] then fst b else Some (last w2))"
    unfolding later_site_def by blast
  have "snd a = (w1 @ w2) @ snd c" using w1 w2 by simp
  moreover have "fst c = (if w1 @ w2 = [] then fst a else Some (last (w1 @ w2)))"
    using w1 w2 by simp
  ultimately show ?thesis unfolding later_site_def by blast
qed

lemma rx_match_later: "m \<in> set (rx_match ic r st) \<Longrightarrow> later_site st m"
  unfolding later_site_def by (rule rx_match_site)

lemma search_from_iff:
  "search_from ic r prev t \<noteq> None \<longleftrightarrow> (\<exists>m. later_site (prev, t) m \<and> rx_match ic r m \<noteq> [])"
proof (induction t arbitrary: prev)
  case Nil
  show ?case
  proof
    assume "search_from ic r prev [] \<noteq> None"
    then have "rx_match ic r (prev, []) \<noteq> []" by (auto split: list.splits)
    then show "\<exists>m. later_site (prev, []) m \<and> rx_match ic r m \<noteq> []"
      using later_site_refl by blast
  next
    assume "\<exists>m. later_site (prev, []) m \<and> rx_match ic r m \<noteq> []"
    then obtain m where m: "later_site (prev, []) m" "rx_match ic r m \<noteq> []" by blast
    then have "m = (prev, [])"
      by (cases m) (auto simp: later_site_def)
    then show "search_from ic r prev [] \<noteq> None"
      using m(2) by (auto split: list.splits)
  qed
next
  case (Cons c cs)
  show ?case
  proof (cases "rx_match ic r (prev, c # cs) = []")
    case False
    then have "search_from ic r prev (c # cs) \<noteq> None"
      by (auto split: list.splits)
    then show ?thesis using False later_site_refl by blast
  next
    case True
    then have s: "search_from ic r prev (c # cs) = search_from ic r (Some c) cs"
      by simp
    have "(\<exists>m. later_site (prev, c # cs) m \<and> rx_match ic r m \<noteq> []) \<longleftrightarrow>
          (\<exists>m. later_site (Some c, cs) m \<and> rx_match ic r m \<noteq> [])"
    proof
      assume "\<exists>m. later_site (prev, c # cs) m \<and> rx_match ic r m \<noteq> []"
      then obtain m where m: "rx_match ic r m \<noteq> []" and l: "later_site (prev, c # cs) m"
        by blast
      from l obtain w where "snd (prev, c # cs) = w @ snd m"
        "fst m = (if w = [] then fst (prev, c # cs) else Some (last w))"
        unfolding later_site_def by blast
      then have w: "c # cs = w @ snd m" "fst m = (if w = [] then prev else Some (last w))"
        by simp_all
      have "w \<noteq> []"
      proof
        assume "w = []"
        then have "m = (prev, c # cs)" using w by (cases m) simp
        then show False using m True by simp
      qed
      then obtain w' where w': "w = c # w'" using w(1) by (cases w) auto
      then have "cs = w' @ snd m" using w(1) by simp
      moreover have "fst m = (if w' = [] then Some c else Some (last w'))"
        using w(2) w' by simp
      ultimately have "later_site (Some c, cs) m"
        unfolding later_site_def by auto
      then show "\<exists>m. later_site (Some c, cs) m \<and> rx_match ic r m \<noteq> []"
        using m by blast
    next
      assume "\<exists>m. later_site (Some c, cs) m \<and> rx_match ic r m \<noteq> []"
      then obtain m where m: "rx_match ic r m \<noteq> []" and l: "later_site (Some c, cs) m"
        by blast
      from l obtain w where "snd (Some c, cs) = w @ snd m"
        "fst m = (if w = [] then fst (Some c, cs) else Some (last w))"
        unfolding later_site_def by blast
      then have w: "cs = w @ snd m" "fst m = (if w = [] then Some c else Some (last w))"
        by simp_all
      have "c # cs = (c # w) @ snd m" using w(1) by simp
      moreover have "fst m = (if c # w = [] then prev else Some (last (c # w)))"
        using w(2) by simp
      ultimately have "later_site (prev, c # cs) m"
        unfolding later_site_def by (metis fst_conv snd_conv)
      then show "\<exists>m. later_site (prev, c # cs) m \<and> rx_match ic r m \<noteq> []"
        using m by blast
    qed
    then show ?thesis using s Cons.IH[of "Some c"] by simp
  qed
qed

lemma pattern_forms:
  "duration_patterns ! 0 =
     Seq number (Seq (Many0 Space) (Seq (alts (map ascii [''hour'', ''hours'', ''hr'', ''hrs'']))
       (Seq (Many0 Space)
          (Opt (Alt (Seq (Lit (ascii ''per'')) (Seq (Many0 Space) (Lit (ascii ''week'')))) (Lit (ascii ''weekly'')))))))"
  "duration_patterns ! 1 =
     Seq number (Seq (Many0 Space) (alts (map ascii [''week'', ''weeks'', ''wk'', ''wks''])))"
  "duration_patterns ! 5 = Seq (Lit (ascii ''approximately'')) (Seq (Many0 Space) unit_tail)"
  "duration_patterns ! 6 = Seq (Lit (ascii ''about'')) (Seq (Many0 Space) unit_tail)"
  "duration_patterns ! 7 = Seq number (Seq (Lit (ascii ''-'')) unit_tail)"
  by (simp_all add: duration_patterns_def unit_tail_def)

lemma unit_tail_shadowed:
  assumes "rx_match False unit_tail m \<noteq> []"
  shows "rx_match False (duration_patterns ! 0) m \<noteq> []
       \<or> rx_match False (duration_patterns ! 1) m \<noteq> []"
proof -
  from assms obtain n1 n2 where
    n1: "n1 \<in> set (rx_match False number m)" and
    n2: "n2 \<in> set (rx_match False (Many0 Space) n1)" and
    u: "rx_match False (alts (map ascii [''hour'', ''hours'', ''week'', ''weeks''])) n2 \<noteq> []"
    unfolding unit_tail_def rx_match_Seq_nonempty by blast
  from u have "prefix (ascii ''hour'') (snd n2) \<or> prefix (ascii ''hours'') (snd n2)
      \<or> prefix (ascii ''week'') (snd n2) \<or> prefix (ascii ''weeks'') (snd n2)"
    by (auto simp: lit_matches_def split: if_splits)
  moreover have "prefix (ascii ''hours'') (snd n2) \<Longrightarrow> prefix (ascii ''hour'') (snd n2)"
    using append_prefixD[of "ascii ''hour''" "ascii ''s''" "snd n2"] by simp
  moreover have "prefix (ascii ''weeks'') (snd n2) \<Longrightarrow> prefix (ascii ''week'') (snd n2)"
    using append_prefixD[of "ascii ''week''" "ascii ''s''" "snd n2"] by simp
  ultimately consider "prefix (ascii ''hour'') (snd n2)" | "prefix (ascii ''week'') (snd n2)"
    by blast
  then show ?thesis
  proof cases
    case 1
    then have "rx_match False (alts (map ascii [''hour'', ''hours'', ''hr'', ''hrs''])) n2 \<noteq> []"
      by (simp add: lit_matches_def)
    then obtain k where k: "k \<in> set (rx_match False (alts (map ascii [''hour'', ''hours'', ''hr'', ''hrs''])) n2)"
      by (meson last_in_set)
    have "rx_match False (Seq (Many0 Space)
          (Opt (Alt (Seq (Lit (ascii ''per'')) (Seq (Many0 Space) (Lit (ascii ''week'')))) (Lit (ascii ''weekly''))))) k \<noteq> []"
      unfolding rx_match_Seq_nonempty
      using rx_match_Many0_nonempty[of False Space k] rx_match_Opt_nonempty
      by (meson last_in_set)
    then have "rx_match False (duration_patterns ! 0) m \<noteq> []"
      unfolding pattern_forms rx_match_Seq_nonempty using n1 n2 k by blast
    then show ?thesis by blast
  next
    case 2
    then have "rx_match False (alts (map ascii [''week'', ''weeks'', ''wk'', ''wks''])) n2 \<noteq> []"
      by (simp add: lit_matches_def)
    then have "rx_match False (duration_patterns ! 1) m \<noteq> []"
      unfolding pattern_forms rx_match_Seq_nonempty using n1 n2 by blast
    then show ?thesis by blast
  qed
qed

lemma behind_prefix_shadowed:
  assumes "re_search False (Seq a (Seq b unit_tail)) t \<noteq> None"
  shows "re_search False (duration_patterns ! 0) t \<noteq> None
       \<or> re_search False (duration_patterns ! 1) t \<noteq> None"
proof -
  from assms obtain st where st: "later_site (None, t) st"
    and ne: "rx_match False (Seq a (Seq b unit_tail)) st \<noteq> []"
    unfolding re_search_def search_from_iff by blast
  from ne obtain k m where k: "k \<in> set (rx_match False a st)"
    and m: "m \<in> set (rx_match False b k)" and u: "rx_match False unit_tail m \<noteq> []"
    unfolding rx_match_Seq_nonempty by blast
  have "later_site (None, t) m"
    using st rx_match_later[OF k] rx_match_later[OF m] later_site_trans by blast
  then show ?thesis
    unfolding re_search_def search_from_iff using unit_tail_shadowed[OF u] by blast
qed

lemma last_three_never_first:
  "first_match duration_patterns t = first_match (take 5 duration_patterns) t"
proof -
  have l: "duration_patterns =
      [duration_patterns ! 0, duration_patterns ! 1, duration_patterns ! 2, duration_patterns ! 3,
       duration_patterns ! 4, duration_patterns ! 5, duration_patterns ! 6, duration_patterns ! 7]"
    by (simp add: duration_patterns_def)
  have t: "take 5 duration_patterns =
      [duration_patterns ! 0, duration_patterns ! 1, duration_patterns ! 2, duration_patterns ! 3,
       duration_patterns ! 4]"
    by (simp add: duration_patterns_def)
  have s: "re_search False (duration_patterns ! 0) t = None \<Longrightarrow>
      re_search False (duration_patterns ! 1) t = None \<Longrightarrow>
      re_search False (duration_patterns ! 5) t = None
      \<and> re_search False (duration_patterns ! 6) t = None
      \<and> re_search False (duration_patterns ! 7) t = None"
    using behind_prefix_shadowed[of _ _ t] unfolding pattern_forms(3,4,5) by blast
  show ?thesis
    apply (subst l)
    apply (subst t)
    using s by (auto split: option.splits)
qed


lemma parse_duration_examples:
  "parse_duration_from_text (ascii ''approximately 4 weeks to complete'') = Some (ascii ''4 week'')
   \<and> \<not> contains (ascii ''weeks'') (ascii ''4 week'')
   \<and> parse_duration_from_text (ascii ''4 hours per week'') = Some (ascii ''4 hour'')"
  by code_simp

text \<open>
  \<^bold>\<open>C7.\<close> On \<open>"approximately 4 weeks to complete"\<close> the first pattern that matches is the
  second of the list, a number and \<open>(week|weeks|wk|wks)\<close>; the alternation takes its first
  branch \<open>week\<close>, the pattern is complete, and the result is \<open>"4 week"\<close>, which does not
  contain \<open>"weeks"\<close>. In the same way \<open>"4 hours per week"\<close> gives \<open>"4 hour"\<close>: after
  \<open>hour\<close> the optional \<open>per week\<close> does not follow, and the match ends there. The last
  three patterns of the list (\<open>approximately\<close>, \<open>about\<close> and the range) never give the
  result, in whatever order they stand: where one of them matches, the first or the second
  pattern matches too, so the result is always that of the first five patterns.
\<close>

theorem parse_duration_cuts_plural:
  "parse_duration_from_text (ascii ''approximately 4 weeks to complete'') = Some (ascii ''4 week'')
   \<and> \<not> contains (ascii ''weeks'') (ascii ''4 week'')
   \<and> parse_duration_from_text (ascii ''4 hours per week'') = Some (ascii ''4 hour'')
   \<and> parse_duration_from_text text =
       (if text = [] then None else first_match (take 5 duration_patterns) (lower text))"
  using parse_duration_examples
  by (simp add: parse_duration_from_text_def last_three_never_first del: first_match.simps)

subsection \<open>The level scan\<close>

lemma join_empty_sep: "join [] xs = concat xs"
  by (induction xs rule: induct_list012) auto

lemma get_text_plain: "get_text [] False el = concat (strings el)"
  by (simp add: get_text_def join_empty_sep)

lemma normalize_level_nonempty: "normalize_level t = Some lev \<Longrightarrow> lev \<noteq> []"
  by (auto simp: normalize_level_def Let_def split: if_splits)

lemma first_level_filter:
  "first_level els =
     (case filter (\<lambda>el. normalize_level (concat (strings el)) \<noteq> None) els of
        [] \<Rightarrow> None
      | el # rest \<Rightarrow> normalize_level (concat (strings el)))"
proof (induction els)
  case Nil
  then show ?case by simp
next
  case (Cons el els)
  show ?case
  proof (cases "normalize_level (concat (strings el))")
    case None
    then show ?thesis using Cons by (simp add: get_text_plain)
  next
    case (Some lev)
    then show ?thesis using normalize_level_nonempty[OF Some] by (simp add: get_text_plain)
  qed
qed

lemma first_level_None:
  "first_level els = None \<longleftrightarrow> (\<forall>el \<in> set els. normalize_level (concat (strings el)) = None)"
proof (induction els)
  case Nil
  then show ?case by simp
next
  case (Cons el els)
  show ?case
  proof (cases "normalize_level (concat (strings el))")
    case None
    then show ?thesis using Cons by (simp add: get_text_plain)
  next
    case (Some lev)
    then show ?thesis using normalize_level_nonempty[OF Some] by (simp add: get_text_plain)
  qed
qed

text \<open>
  \<^bold>\<open>C10\<close>, as stated, fails: in \<open>level_page\<close> the only string with a level keyword is held
  by a paragraph, and the level is \<open>Beginner\<close>, because the paragraph lies in a \<open>div\<close> and the
  text of the \<open>div\<close> includes it.
\<close>

theorem level_keyword_in_nested_paragraph_found:
  "keyword_holders level_page = [ascii ''p''] \<and> parse_level level_page = Some (ascii ''Beginner'')"
  by code_simp

text \<open>
  \<^bold>\<open>C10\<close>, amended. The level scan looks at the \<open>span\<close>, \<open>div\<close> and \<open>li\<close> elements only, in
  document order, and at the whole text of each: all the strings below it, concatenated,
  also those held by paragraphs, headings or other elements nested in it. The level is
  that of the first such element whose text has a keyword; it is none exactly when no
  \<open>span\<close>, \<open>div\<close> or \<open>li\<close> has a keyword in its text, as on a page without such elements.
\<close>

theorem level_scan_reads_whole_text:
  "(parse_level soup = None \<longleftrightarrow>
      (\<forall>el \<in> set (find_all (map ascii [''span'', ''div'', ''li'']) soup).
          normalize_level (concat (strings el)) = None))
   \<and> parse_level soup =
       (case filter (\<lambda>el. normalize_level (concat (strings el)) \<noteq> None)
               (find_all (map ascii [''span'', ''div'', ''li'']) soup) of
          [] \<Rightarrow> None
        | el # rest \<Rightarrow> normalize_level (concat (strings el)))
   \<and> (find_all (map ascii [''span'', ''div'', ''li'']) soup = [] \<longrightarrow> parse_level soup = None)"
proof -
  have a: "parse_level soup = None \<longleftrightarrow>
      (\<forall>el \<in> set (find_all (map ascii [''span'', ''div'', ''li'']) soup).
          normalize_level (concat (strings el)) = None)"
    unfolding parse_level_def by (rule first_level_None)
  have b: "parse_level soup =
       (case filter (\<lambda>el. normalize_level (concat (strings el)) \<noteq> None)
               (find_all (map ascii [''span'', ''div'', ''li'']) soup) of
          [] \<Rightarrow> None
        | el # rest \<Rightarrow> normalize_level (concat (strings el)))"
    unfolding parse_level_def by (rule first_level_filter)
  have c: "find_all (map ascii [''span'', ''div'', ''li'']) soup = [] \<longrightarrow> parse_level soup = None"
    by (simp add: parse_level_def)
  from a b c show ?thesis by blast
qed

theorem level_scan_reads_whole_text_witness:
  "find_all (map ascii [''span'', ''div'', ''li'']) plain_page = []
   \<and> keyword_holders plain_page = (map ascii [''p'', ''h1''])
   \<and> parse_level plain_page = None"
proof -
  have e: "find_all (map ascii [''span'', ''div'', ''li'']) plain_page = []"
    by code_simp
  have k: "keyword_holders plain_page = map ascii [''p'', ''h1'']"
    by code_simp
  from level_scan_reads_whole_text[of plain_page] e have "parse_level plain_page = None"
    by blast
  with e k show ?thesis by simp
qed

subsection \<open>The duration cascade\<close>





lemma find_append_case:
  "find P (xs @ ys) = (case find P xs of Some x \<Rightarrow> Some x | None \<Rightarrow> find P ys)"
  by (induction xs) auto

lemma map_filter_append: "List.map_filter f (xs @ ys) = List.map_filter f xs @ List.map_filter f ys"
  by (simp add: List.map_filter_def)

lemma map_filter_concat:
  "List.map_filter f (concat xss) = concat (map (List.map_filter f) xss)"
  by (induction xss) (simp_all add: map_filter_append List.map_filter_simps)


































end
